theory Spec2Isabelle
  imports Complex_Main "HOL-Library.Multiset" "HOL-Library.Word"
begin

section \<open>Native handle management\<close>

text \<open>
  The bindings keep every native object in a global \<^verbatim>\<open>std::map\<close> keyed by a
  \<^verbatim>\<open>jlong\<close> handle. A \<^verbatim>\<open>jlong\<close> is a signed 64-bit integer; it is modelled
  as an \<open>int\<close>, and the one place that does arithmetic on it (\<^verbatim>\<open>g_nextHandle++\<close>)
  carries its overflow as an explicit branch. A \<^verbatim>\<open>jint\<close> is a signed 32-bit
  integer, likewise an \<open>int\<close>, with every conversion written out. Native pointers
  are addresses (\<open>nat\<close>); the null pointer is \<open>0\<close>.
\<close>

type_synonym jlong = int
type_synonym jint = int
type_synonym addr = nat

definition INT64_MAX :: int where
  "INT64_MAX = 2 ^ 63 - 1"

text \<open>
  Every way a native call can end other than by returning: the Java exception
  thrown through \<^verbatim>\<open>throwLibCameraException\<close> (with its message), the exception
  the JVM raises for a bad array region, and undefined behaviour of the C++
  abstract machine (an unchecked vector index, a signed overflow).
\<close>

datatype error =
    LibCameraException string
  | ArrayIndexOutOfBoundsException
  | UndefinedBehaviour

subsection \<open>\<^verbatim>\<open>std::map<jlong, T>\<close>\<close>

text \<open>
  A \<^verbatim>\<open>std::map\<close> is an association list kept in key order, so that iterating the
  list is iterating the map. \<open>m_find\<close> is \<^verbatim>\<open>find\<close>, \<open>m_put\<close> is
  \<^verbatim>\<open>m[k] = v\<close>, \<open>m_erase\<close> is \<^verbatim>\<open>erase(k)\<close>.
\<close>

type_synonym 'v stdmap = "(jlong \<times> 'v) list"

definition m_find :: "'v stdmap \<Rightarrow> jlong \<Rightarrow> 'v option" where
  "m_find m k = map_of m k"

fun m_put :: "jlong \<Rightarrow> 'v \<Rightarrow> 'v stdmap \<Rightarrow> 'v stdmap" where
  "m_put k v [] = [(k, v)]"
| "m_put k v ((k', v') # m) =
     (if k < k' then (k, v) # (k', v') # m
      else if k = k' then (k, v) # m
      else (k', v') # m_put k v m)"

definition m_erase :: "jlong \<Rightarrow> 'v stdmap \<Rightarrow> 'v stdmap" where
  "m_erase k m = filter (\<lambda>(k', v). k' \<noteq> k) m"

subsection \<open>The pipeline's objects, as far as the bindings look into them\<close>

text \<open>
  A \<^verbatim>\<open>ControlList\<close> holds typed controls; \<^verbatim>\<open>get\<close> returns an optional. Only
  the controls the bindings touch are kept. Floating-point controls are carried
  as the reals they denote: the bindings store and return them, and never
  compute with them.
\<close>

record ControlList =
  AfMode :: "int option"
  LensPosition :: "real option"
  AeEnable :: "bool option"
  ExposureTime :: "int option"
  AnalogueGain :: "real option"

definition empty_controls :: ControlList where
  "empty_controls = \<lparr>AfMode = None, LensPosition = None, AeEnable = None,
     ExposureTime = None, AnalogueGain = None\<rparr>"

text \<open>
  A \<^verbatim>\<open>Request\<close> is held by \<^verbatim>\<open>unique_ptr\<close>; \<open>req_addr\<close> is the address of the
  object (what \<^verbatim>\<open>request.get()\<close> returns and what the completion queue
  stores), \<open>cookie\<close> the value given to \<^verbatim>\<open>createRequest\<close>, \<open>controls\<close> the
  outgoing control list and \<open>metadata\<close> the result metadata the pipeline fills
  in on completion.
\<close>

record Request =
  req_addr :: addr
  cookie :: nat
  controls :: ControlList
  metadata :: ControlList

text \<open>
  A \<^verbatim>\<open>FrameBuffer::Plane\<close> has a file descriptor and an \<^verbatim>\<open>unsigned int\<close> offset
  and length (both below \<open>2 ^ 32\<close>).
\<close>

record Plane =
  plane_fd :: int
  plane_offset :: nat
  plane_length :: nat

record FrameBuffer =
  fb_planes :: "Plane list"

record StreamConfiguration =
  width :: nat
  height :: nat
  bufferCount :: nat
  stream :: addr

text \<open>
  A \<^verbatim>\<open>CameraConfiguration\<close> is its vector of stream configurations. A
  \<^verbatim>\<open>FrameBufferAllocator\<close> is its table from a stream to the buffers allocated
  for it; \<^verbatim>\<open>buffers(stream)\<close> is the empty vector for a stream it does not know.
\<close>

type_synonym CameraConfiguration = "StreamConfiguration list"
type_synonym FrameBufferAllocator = "(addr \<times> FrameBuffer list) list"

definition buffers :: "FrameBufferAllocator \<Rightarrow> addr \<Rightarrow> FrameBuffer list" where
  "buffers a st = (case map_of a st of None \<Rightarrow> [] | Some bs \<Rightarrow> bs)"

subsection \<open>Mapped buffers\<close>

record MappedPlane =
  mp_data :: addr
  mp_length :: nat
  mp_offset :: nat

record MappedBuffer =
  planes :: "MappedPlane list"
  totalLength :: nat

subsection \<open>Global state\<close>

text \<open>
  The globals of the translation unit, and with them the one piece of the
  process the bindings change behind the tables: \<open>vm\<close>, the regions currently
  mapped by \<^verbatim>\<open>mmap\<close> (start address and length, a multiset so that nothing is
  assumed of the addresses the kernel hands out). \<^verbatim>\<open>g_cameras\<close> keeps, for each
  handle, the address of the shared \<^verbatim>\<open>Camera\<close>, and \<^verbatim>\<open>g_cameraManagers\<close> the
  address of the \<^verbatim>\<open>CameraManager\<close>. All functions below run under
  \<^verbatim>\<open>g_mutex\<close>, so each is one atomic step on this state.
\<close>

record state =
  g_cameraManagers :: "addr stdmap"
  g_cameras :: "addr stdmap"
  g_configurations :: "CameraConfiguration stdmap"
  g_allocators :: "FrameBufferAllocator stdmap"
  g_requests :: "Request stdmap"
  g_nextHandle :: jlong
  g_completedRequests :: "addr list stdmap"
  g_mappedBuffers :: "MappedBuffer stdmap"
  vm :: "(addr \<times> nat) multiset"

definition init_state :: state where
  "init_state = \<lparr>g_cameraManagers = [], g_cameras = [], g_configurations = [],
     g_allocators = [],
     g_requests = [], g_nextHandle = 1, g_completedRequests = [],
     g_mappedBuffers = [], vm = {#}\<rparr>"

text \<open>
  \<^verbatim>\<open>return g_nextHandle++;\<close> The increment of \<^verbatim>\<open>INT64_MAX\<close> is a signed
  overflow.
\<close>

definition allocHandle :: "state \<Rightarrow> error + (jlong \<times> state)" where
  "allocHandle s =
     (if g_nextHandle s < INT64_MAX
      then Inr (g_nextHandle s, s\<lparr>g_nextHandle := g_nextHandle s + 1\<rparr>)
      else Inl UndefinedBehaviour)"

text \<open>\<open>alloc_n n\<close> calls \<open>allocHandle\<close> \<open>n\<close> times and collects what it returned.\<close>

fun alloc_n :: "nat \<Rightarrow> state \<Rightarrow> error + (jlong list \<times> state)" where
  "alloc_n 0 s = Inr ([], s)"
| "alloc_n (Suc n) s =
     (case allocHandle s of
        Inl e \<Rightarrow> Inl e
      | Inr (h, s') \<Rightarrow>
          (case alloc_n n s' of
             Inl e \<Rightarrow> Inl e
           | Inr (hs, s'') \<Rightarrow> Inr (h # hs, s'')))"


section \<open>Machine integers\<close>

text \<open>
  \<open>to_jint\<close> converts an integer to a signed 32-bit \<^verbatim>\<open>jint\<close> (two's
  complement truncation), \<open>to_size_t\<close> to an unsigned 64-bit \<^verbatim>\<open>size_t\<close>, and
  \<open>to_uint\<close> to a 32-bit \<^verbatim>\<open>unsigned int\<close>.
\<close>

definition to_jint :: "int \<Rightarrow> jint" where
  "to_jint x = (x + 2 ^ 31) mod 2 ^ 32 - 2 ^ 31"

definition to_size_t :: "int \<Rightarrow> nat" where
  "to_size_t x = nat (x mod 2 ^ 64)"

definition to_uint :: "int \<Rightarrow> nat" where
  "to_uint x = nat (x mod 2 ^ 32)"

text \<open>Subtraction of two \<^verbatim>\<open>size_t\<close> values wraps around.\<close>

definition size_t_sub :: "nat \<Rightarrow> nat \<Rightarrow> nat" where
  "size_t_sub a b = (a + 2 ^ 64 - b) mod 2 ^ 64"

section \<open>Opening cameras and creating requests\<close>


text \<open>
  \<^verbatim>\<open>Camera_nativeCreateRequest\<close>. The \<^verbatim>\<open>cookie\<close> argument (\<open>cookie_arg\<close>) is not used: the
  request is created with the address of the camera as its cookie. The
  pipeline's \<^verbatim>\<open>createRequest\<close> is outside the bindings: \<open>createRequest\<close>
  stands for the address of the \<^verbatim>\<open>Request\<close> it allocates, \<open>0\<close> when it
  fails. The new request has neither controls nor metadata.
\<close>

definition Camera_nativeCreateRequest ::
  "(addr \<Rightarrow> nat \<Rightarrow> addr) \<Rightarrow> jlong \<Rightarrow> jlong \<Rightarrow> state \<Rightarrow> (error + jlong) \<times> state" where
  "Camera_nativeCreateRequest createRequest handle cookie_arg s =
     (case m_find (g_cameras s) handle of
        None \<Rightarrow> (Inl (LibCameraException ''Invalid Camera handle''), s)
      | Some cam \<Rightarrow>
          (let request = createRequest cam cam in
           if request = 0 then (Inr 0, s)
           else
             (case allocHandle s of
                Inl e \<Rightarrow> (Inl e, s)
              | Inr (reqHandle, s') \<Rightarrow>
                  (Inr reqHandle,
                   s'\<lparr>g_requests :=
                        m_put reqHandle
                          \<lparr>req_addr = request, cookie = cam,
                             controls = empty_controls, metadata = empty_controls\<rparr>
                          (g_requests s')\<rparr>))))"

section \<open>Completion routing\<close>

text \<open>
  \<^verbatim>\<open>requestCompleted(Request* request)\<close>: the pipeline's completion signal. The
  cookie is the address of the camera the request was created on; the first
  handle of \<^verbatim>\<open>g_cameras\<close> (in key order) holding that camera gets the request
  pushed on its queue, which \<^verbatim>\<open>operator[]\<close> creates when it is missing.
\<close>

definition requestCompleted :: "Request \<Rightarrow> state \<Rightarrow> state" where
  "requestCompleted request s =
     (let cam = cookie request in
      if cam = 0 then s
      else
        (case find (\<lambda>(handle, camera). camera = cam) (g_cameras s) of
           None \<Rightarrow> s
         | Some (handle, camera) \<Rightarrow>
             (let q = (case m_find (g_completedRequests s) handle of
                         None \<Rightarrow> [] | Some q \<Rightarrow> q)
              in s\<lparr>g_completedRequests :=
                     m_put handle (q @ [req_addr request]) (g_completedRequests s)\<rparr>)))"

text \<open>
  \<^verbatim>\<open>Camera_nativePollCompletedRequest\<close>: pop the front of the camera's queue,
  then scan \<^verbatim>\<open>g_requests\<close> for the handle owning that address.
\<close>

definition Camera_nativePollCompletedRequest ::
  "jlong \<Rightarrow> state \<Rightarrow> (error + jlong) \<times> state" where
  "Camera_nativePollCompletedRequest handle s =
     (case m_find (g_completedRequests s) handle of
        None \<Rightarrow> (Inr 0, s)
      | Some [] \<Rightarrow> (Inr 0, s)
      | Some (req # q) \<Rightarrow>
          (let s' = s\<lparr>g_completedRequests := m_put handle q (g_completedRequests s)\<rparr>
           in case find (\<lambda>(reqHandle, request). req_addr request = req) (g_requests s') of
                Some (reqHandle, request) \<Rightarrow> (Inr reqHandle, s')
              | None \<Rightarrow> (Inr 0, s')))"


text \<open>
  \<^verbatim>\<open>Camera_nativeQueueRequest\<close>. The pipeline's \<^verbatim>\<open>queueRequest\<close> is outside
  the bindings: \<open>queueRequest\<close> stands for the status it returns.
\<close>

definition Camera_nativeQueueRequest ::
  "(addr \<Rightarrow> Request \<Rightarrow> jint) \<Rightarrow> jlong \<Rightarrow> jlong \<Rightarrow> state \<Rightarrow> (error + jint) \<times> state" where
  "Camera_nativeQueueRequest queueRequest handle requestHandle s =
     (case m_find (g_cameras s) handle of
        None \<Rightarrow> (Inl (LibCameraException ''Invalid Camera handle''), s)
      | Some cam \<Rightarrow>
          (case m_find (g_requests s) requestHandle of
             None \<Rightarrow> (Inl (LibCameraException ''Invalid Request handle''), s)
           | Some req \<Rightarrow> (Inr (queueRequest cam req), s)))"

section \<open>Request native methods\<close>

definition Request_nativeDestroy :: "jlong \<Rightarrow> state \<Rightarrow> (error + unit) \<times> state" where
  "Request_nativeDestroy handle s =
     (Inr (), s\<lparr>g_requests := m_erase handle (g_requests s)\<rparr>)"

text \<open>
  The five control setters. Each looks the request up, returns at once when it
  is missing, and otherwise writes one entry of the request's \<^verbatim>\<open>controls()\<close>.
\<close>

definition set_control ::
  "jlong \<Rightarrow> (ControlList \<Rightarrow> ControlList) \<Rightarrow> state \<Rightarrow> (error + unit) \<times> state" where
  "set_control handle upd s =
     (case m_find (g_requests s) handle of
        None \<Rightarrow> (Inr (), s)
      | Some req \<Rightarrow>
          (Inr (), s\<lparr>g_requests :=
                      m_put handle (req\<lparr>controls := upd (controls req)\<rparr>) (g_requests s)\<rparr>))"

definition Request_nativeSetAfMode :: "jlong \<Rightarrow> jint \<Rightarrow> state \<Rightarrow> (error + unit) \<times> state" where
  "Request_nativeSetAfMode handle mode s =
     set_control handle (\<lambda>c. c\<lparr>AfMode := Some mode\<rparr>) s"

definition Request_nativeSetLensPosition :: "jlong \<Rightarrow> real \<Rightarrow> state \<Rightarrow> (error + unit) \<times> state" where
  "Request_nativeSetLensPosition handle position s =
     set_control handle (\<lambda>c. c\<lparr>LensPosition := Some position\<rparr>) s"

definition Request_nativeSetAeEnable :: "jlong \<Rightarrow> bool \<Rightarrow> state \<Rightarrow> (error + unit) \<times> state" where
  "Request_nativeSetAeEnable handle enable s =
     set_control handle (\<lambda>c. c\<lparr>AeEnable := Some enable\<rparr>) s"

definition Request_nativeSetExposureTime :: "jlong \<Rightarrow> jint \<Rightarrow> state \<Rightarrow> (error + unit) \<times> state" where
  "Request_nativeSetExposureTime handle microseconds s =
     set_control handle (\<lambda>c. c\<lparr>ExposureTime := Some microseconds\<rparr>) s"

definition Request_nativeSetAnalogueGain :: "jlong \<Rightarrow> real \<Rightarrow> state \<Rightarrow> (error + unit) \<times> state" where
  "Request_nativeSetAnalogueGain handle gain s =
     set_control handle (\<lambda>c. c\<lparr>AnalogueGain := Some gain\<rparr>) s"

text \<open>The metadata getters read the request's \<^verbatim>\<open>metadata()\<close>.\<close>

definition Request_nativeGetExposureTime :: "jlong \<Rightarrow> state \<Rightarrow> (error + jlong) \<times> state" where
  "Request_nativeGetExposureTime handle s =
     (case m_find (g_requests s) handle of
        None \<Rightarrow> (Inr 0, s)
      | Some req \<Rightarrow>
          (case ExposureTime (metadata req) of
             Some expTime \<Rightarrow> (Inr expTime, s)
           | None \<Rightarrow> (Inr 0, s)))"

definition Request_nativeGetAnalogueGain :: "jlong \<Rightarrow> state \<Rightarrow> (error + real) \<times> state" where
  "Request_nativeGetAnalogueGain handle s =
     (case m_find (g_requests s) handle of
        None \<Rightarrow> (Inr 1.0, s)
      | Some req \<Rightarrow>
          (case AnalogueGain (metadata req) of
             Some gain \<Rightarrow> (Inr gain, s)
           | None \<Rightarrow> (Inr 1.0, s)))"

section \<open>FrameBufferAllocator native methods\<close>

text \<open>
  \<^verbatim>\<open>CameraConfiguration::at(unsigned int index)\<close> indexes the vector of stream
  configurations without a bounds check; the \<^verbatim>\<open>jint\<close> argument is converted
  to \<^verbatim>\<open>unsigned int\<close> at the call. An index past the end is undefined
  behaviour.
\<close>

definition config_at :: "CameraConfiguration \<Rightarrow> jint \<Rightarrow> error + StreamConfiguration" where
  "config_at conf index =
     (if to_uint index < length conf then Inr (conf ! to_uint index)
      else Inl UndefinedBehaviour)"

text \<open>
  \<^verbatim>\<open>FrameBufferAllocator_nativeAllocate\<close>. The pipeline's \<^verbatim>\<open>allocate\<close> is
  outside the bindings: \<open>allocate\<close> stands for the status it returns and the
  allocator it leaves.
\<close>

definition FrameBufferAllocator_nativeAllocate ::
  "(FrameBufferAllocator \<Rightarrow> addr \<Rightarrow> jint \<times> FrameBufferAllocator) \<Rightarrow>
   jlong \<Rightarrow> jlong \<Rightarrow> jint \<Rightarrow> state \<Rightarrow> (error + jint) \<times> state" where
  "FrameBufferAllocator_nativeAllocate allocate handle configHandle streamIndex s =
     (case m_find (g_allocators s) handle of
        None \<Rightarrow> (Inl (LibCameraException ''Invalid FrameBufferAllocator handle''), s)
      | Some alloc \<Rightarrow>
          (case m_find (g_configurations s) configHandle of
             None \<Rightarrow> (Inl (LibCameraException ''Invalid CameraConfiguration handle''), s)
           | Some conf \<Rightarrow>
               if streamIndex < 0 \<or> to_size_t streamIndex \<ge> length conf
               then (Inl (LibCameraException ''Invalid stream index''), s)
               else
                 (case config_at conf streamIndex of
                    Inl e \<Rightarrow> (Inl e, s)
                  | Inr sc \<Rightarrow>
                      (case allocate alloc (stream sc) of
                         (rc, alloc') \<Rightarrow>
                           (Inr rc, s\<lparr>g_allocators := m_put handle alloc' (g_allocators s)\<rparr>)))))"

section \<open>Buffer access for captured frames\<close>

text \<open>
  \<open>show_nat\<close> prints a number in decimal, as the \<^verbatim>\<open>%zu\<close> and \<^verbatim>\<open>%d\<close>
  conversions of \<^verbatim>\<open>snprintf\<close> do for a value that is not negative.
\<close>

definition digit :: "nat \<Rightarrow> char" where
  "digit d = ''0123456789'' ! d"

fun show_nat :: "nat \<Rightarrow> string" where
  "show_nat n =
     (if n < 10 then [digit n]
      else show_nat (n div 10) @ [digit (n mod 10)])"

declare show_nat.simps [simp del]

text \<open>
  The kernel's \<^verbatim>\<open>mmap(nullptr, size, PROT_READ, MAP_SHARED, fd, 0)\<close> is a
  parameter: given the regions mapped so far, the descriptor and the size, it
  fails with the text of \<^verbatim>\<open>strerror(errno)\<close> or returns the address of the new
  region. \<^verbatim>\<open>munmap(data, length)\<close> takes the region out again.
\<close>

type_synonym mmap_fn = "(addr \<times> nat) multiset \<Rightarrow> int \<Rightarrow> nat \<Rightarrow> string + addr"

definition munmap :: "addr \<Rightarrow> nat \<Rightarrow> (addr \<times> nat) multiset \<Rightarrow> (addr \<times> nat) multiset" where
  "munmap a len v = v - {#(a, len)#}"

text \<open>\<^verbatim>\<open>for (auto& mp : mappedBuffer.planes) munmap(mp.data, mp.length);\<close>\<close>

definition unmap_planes ::
  "MappedPlane list \<Rightarrow> (addr \<times> nat) multiset \<Rightarrow> (addr \<times> nat) multiset" where
  "unmap_planes mps v = fold (\<lambda>mp. munmap (mp_data mp) (mp_length mp)) mps v"

text \<open>
  The loop over \<^verbatim>\<open>fbPlanes\<close> in \<^verbatim>\<open>nativeMapBuffer\<close>, from index \<open>i\<close> on, with
  the planes mapped so far in \<open>mappedBuffer\<close>. The sum \<^verbatim>\<open>plane.offset +
  plane.length\<close> is computed in \<^verbatim>\<open>unsigned int\<close>; the messages are cut to the
  127 characters the buffer holds.
\<close>

definition msg_invalid_fd :: "nat \<Rightarrow> string" where
  "msg_invalid_fd i = take 127 (''Invalid plane fd at index '' @ show_nat i)"

definition msg_zero_size :: "nat \<Rightarrow> string" where
  "msg_zero_size i = take 127 (''Zero-size plane at index '' @ show_nat i)"

definition msg_mmap_failed :: "nat \<Rightarrow> int \<Rightarrow> nat \<Rightarrow> string \<Rightarrow> string" where
  "msg_mmap_failed i fd mapSize err =
     take 127 (''Failed to mmap buffer plane '' @ show_nat i @ '' (fd='' @ show_nat (nat fd)
       @ '', size='' @ show_nat mapSize @ ''): '' @ err)"

fun map_planes ::
  "mmap_fn \<Rightarrow> Plane list \<Rightarrow> nat \<Rightarrow> MappedBuffer \<Rightarrow> (addr \<times> nat) multiset \<Rightarrow>
   (string + MappedBuffer) \<times> (addr \<times> nat) multiset" where
  "map_planes mmap [] i mappedBuffer v = (Inr mappedBuffer, v)"
| "map_planes mmap (plane # fbPlanes) i mappedBuffer v =
     (if plane_fd plane < 0
      then (Inl (msg_invalid_fd i), unmap_planes (planes mappedBuffer) v)
      else
        (let mapSize = (plane_offset plane + plane_length plane) mod 2 ^ 32 in
         if mapSize = 0
         then (Inl (msg_zero_size i), unmap_planes (planes mappedBuffer) v)
         else
           (case mmap v (plane_fd plane) mapSize of
              Inl err \<Rightarrow>
                (Inl (msg_mmap_failed i (plane_fd plane) mapSize err),
                 unmap_planes (planes mappedBuffer) v)
            | Inr data \<Rightarrow>
                map_planes mmap fbPlanes (i + 1)
                  \<lparr>planes = planes mappedBuffer
                      @ [\<lparr>mp_data = data, mp_length = mapSize,
                          mp_offset = plane_offset plane\<rparr>],
                   totalLength = (totalLength mappedBuffer + plane_length plane) mod 2 ^ 64\<rparr>
                  (add_mset (data, mapSize) v))))"

definition FrameBuffer_nativeMapBuffer ::
  "mmap_fn \<Rightarrow> jlong \<Rightarrow> jlong \<Rightarrow> jint \<Rightarrow> jint \<Rightarrow> state \<Rightarrow> (error + jlong) \<times> state" where
  "FrameBuffer_nativeMapBuffer mmap allocatorHandle configHandle streamIndex bufferIndex s =
     (case m_find (g_allocators s) allocatorHandle of
        None \<Rightarrow> (Inl (LibCameraException ''Invalid FrameBufferAllocator handle''), s)
      | Some alloc \<Rightarrow>
          (case m_find (g_configurations s) configHandle of
             None \<Rightarrow> (Inl (LibCameraException ''Invalid CameraConfiguration handle''), s)
           | Some conf \<Rightarrow>
               (case config_at conf streamIndex of
                  Inl e \<Rightarrow> (Inl e, s)
                | Inr sc \<Rightarrow>
                    (let bufs = buffers alloc (stream sc) in
                     if bufferIndex < 0 \<or> to_size_t bufferIndex \<ge> length bufs
                     then (Inl (LibCameraException ''Invalid buffer index''), s)
                     else
                       (let fbPlanes = fb_planes (bufs ! to_size_t bufferIndex) in
                        if fbPlanes = []
                        then (Inl (LibCameraException ''FrameBuffer has no planes''), s)
                        else
                          (case map_planes mmap fbPlanes 0
                                  \<lparr>planes = [], totalLength = 0\<rparr> (vm s) of
                             (Inl msg, v) \<Rightarrow> (Inl (LibCameraException msg), s\<lparr>vm := v\<rparr>)
                           | (Inr mappedBuffer, v) \<Rightarrow>
                               (case allocHandle (s\<lparr>vm := v\<rparr>) of
                                  Inl e \<Rightarrow> (Inl e, s\<lparr>vm := v\<rparr>)
                                | Inr (mapHandle, s') \<Rightarrow>
                                    (Inr mapHandle,
                                     s'\<lparr>g_mappedBuffers :=
                                          m_put mapHandle mappedBuffer
                                            (g_mappedBuffers s')\<rparr>))))))))"

definition FrameBuffer_nativeUnmapBuffer :: "jlong \<Rightarrow> state \<Rightarrow> (error + unit) \<times> state" where
  "FrameBuffer_nativeUnmapBuffer mapHandle s =
     (case m_find (g_mappedBuffers s) mapHandle of
        None \<Rightarrow> (Inr (), s)
      | Some mb \<Rightarrow>
          (Inr (), s\<lparr>vm := unmap_planes (planes mb) (vm s),
                     g_mappedBuffers := m_erase mapHandle (g_mappedBuffers s)\<rparr>))"

text \<open>\<^verbatim>\<open>return it->second.totalLength;\<close> converts a \<^verbatim>\<open>size_t\<close> to a \<^verbatim>\<open>jint\<close>.\<close>

definition FrameBuffer_nativeGetBufferSize :: "jlong \<Rightarrow> state \<Rightarrow> (error + jint) \<times> state" where
  "FrameBuffer_nativeGetBufferSize mapHandle s =
     (case m_find (g_mappedBuffers s) mapHandle of
        None \<Rightarrow> (Inr 0, s)
      | Some mb \<Rightarrow> (Inr (to_jint (int (totalLength mb))), s))"

text \<open>
  Native memory is a function from addresses to bytes, a Java \<^verbatim>\<open>byte[]\<close> a
  list of bytes. A read of \<open>n\<close> bytes at \<open>buf\<close> is inside the mapping of
  \<open>len\<close> bytes at \<open>data\<close> when \<open>readable data len buf n\<close>.
\<close>

type_synonym byte = "8 word"

definition readable :: "addr \<Rightarrow> nat \<Rightarrow> addr \<Rightarrow> nat \<Rightarrow> bool" where
  "readable data len buf n = (data \<le> buf \<and> buf + n \<le> data + len)"

text \<open>
  \<^verbatim>\<open>SetByteArrayRegion(array, start, len, buf)\<close> belongs to the JVM. When the
  region does not lie inside the array it copies nothing and leaves an
  \<^verbatim>\<open>ArrayIndexOutOfBoundsException\<close> pending (\<open>exc\<close> is the pending
  exception; the first one raised stays). Otherwise it reads \<open>len\<close> bytes at
  \<open>buf\<close> and writes them to \<open>array[start..]\<close>. \<open>buf\<close> points into the
  mapping of \<open>maplen\<close> bytes at \<open>data\<close>; a read that leaves this mapping
  is a memory fault, undefined behaviour.
\<close>

definition SetByteArrayRegion ::
  "(addr \<Rightarrow> byte) \<Rightarrow> addr \<Rightarrow> nat \<Rightarrow> byte list \<Rightarrow> jint \<Rightarrow> jint \<Rightarrow> addr \<Rightarrow> error option \<Rightarrow>
   error + (byte list \<times> error option)" where
  "SetByteArrayRegion mem data maplen array start len buf exc =
     (if start < 0 \<or> len < 0 \<or> int (length array) < start + len
      then Inr (array, (case exc of None \<Rightarrow> Some ArrayIndexOutOfBoundsException
                                  | Some e \<Rightarrow> Some e))
      else if \<not> readable data maplen buf (nat len)
      then Inl UndefinedBehaviour
      else Inr (take (nat start) array @ map mem [buf ..< buf + nat len]
                  @ drop (nat start + nat len) array, exc))"

text \<open>
  The loop over the view's planes in \<^verbatim>\<open>nativeCopyBuffer\<close>. \<^verbatim>\<open>plane.length -
  plane.offset\<close> is a \<^verbatim>\<open>size_t\<close> subtraction; \<open>copyLen\<close> is passed as a
  \<^verbatim>\<open>jsize\<close> and added to the \<^verbatim>\<open>jint\<close> \<open>destOffset\<close>. \<open>planeData\<close> points
  into the mapping of \<^verbatim>\<open>plane.length\<close> bytes at \<^verbatim>\<open>plane.data\<close>.
\<close>

fun copy_planes ::
  "(addr \<Rightarrow> byte) \<Rightarrow> MappedPlane list \<Rightarrow> jint \<Rightarrow> nat \<Rightarrow> byte list \<Rightarrow> error option \<Rightarrow>
   error + (byte list \<times> error option)" where
  "copy_planes mem [] destOffset remaining dest exc = Inr (dest, exc)"
| "copy_planes mem (plane # ps) destOffset remaining dest exc =
     (if remaining = 0 then Inr (dest, exc)
      else
        (let planeData = mp_data plane + mp_offset plane;
             planeDataLen = size_t_sub (mp_length plane) (mp_offset plane);
             copyLen = min remaining planeDataLen
         in case SetByteArrayRegion mem (mp_data plane) (mp_length plane)
                   dest destOffset (to_jint (int copyLen)) planeData exc of
              Inl e \<Rightarrow> Inl e
            | Inr (dest', exc') \<Rightarrow>
                copy_planes mem ps (to_jint (destOffset + int copyLen))
                  (remaining - copyLen) dest' exc'))"

text \<open>
  \<^verbatim>\<open>FrameBuffer_nativeCopyBuffer\<close> returns nothing; its effect is the new
  content of \<^verbatim>\<open>dest\<close>, returned beside the outcome. After a memory fault
  there is no content to speak of; the model returns the array as it was
  passed.
\<close>

definition FrameBuffer_nativeCopyBuffer ::
  "(addr \<Rightarrow> byte) \<Rightarrow> jlong \<Rightarrow> byte list \<Rightarrow> jint \<Rightarrow> jint \<Rightarrow> state \<Rightarrow>
   (error + unit) \<times> byte list" where
  "FrameBuffer_nativeCopyBuffer mem mapHandle dest offset len s =
     (case m_find (g_mappedBuffers s) mapHandle of
        None \<Rightarrow> (Inl (LibCameraException ''Invalid map handle''), dest)
      | Some mb \<Rightarrow>
          (let destOffset = offset;
               remaining = min (to_size_t len) (totalLength mb)
           in case copy_planes mem (planes mb) destOffset remaining dest None of
                Inl e \<Rightarrow> (Inl e, dest)
              | Inr (dest', None) \<Rightarrow> (Inr (), dest')
              | Inr (dest', Some e) \<Rightarrow> (Inl e, dest')))"

section \<open>Conditions on the tables\<close>

text \<open>
  \<open>pending s c\<close> is the content of the completion queue of camera handle \<open>c\<close>,
  oldest first; a handle without a queue has nothing pending.
\<close>

definition pending :: "state \<Rightarrow> jlong \<Rightarrow> addr list" where
  "pending s c = (case m_find (g_completedRequests s) c of None \<Rightarrow> [] | Some q \<Rightarrow> q)"

text \<open>
  Each request of \<^verbatim>\<open>g_requests\<close> is owned by a \<^verbatim>\<open>unique_ptr\<close>, so two handles
  never hold the same address.
\<close>

definition unique_requests :: "state \<Rightarrow> bool" where
  "unique_requests s =
     (\<forall>(h, r) \<in> set (g_requests s). \<forall>(h', r') \<in> set (g_requests s).
        req_addr r = req_addr r' \<longrightarrow> h = h')"

text \<open>
  \<open>first_handle s c cam\<close>: \<open>c\<close> is the first handle of \<^verbatim>\<open>g_cameras\<close>, in key
  order, that holds camera \<open>cam\<close>. A handle that alone holds its camera is
  the first.
\<close>

definition first_handle :: "state \<Rightarrow> jlong \<Rightarrow> addr \<Rightarrow> bool" where
  "first_handle s c cam =
     (find (\<lambda>(handle, camera). camera = cam) (g_cameras s) = Some (c, cam))"

text \<open>\<open>no_request_at s a\<close>: no request of \<^verbatim>\<open>g_requests\<close> lives at address \<open>a\<close>.\<close>

definition no_request_at :: "state \<Rightarrow> addr \<Rightarrow> bool" where
  "no_request_at s a = (\<forall>(h, r) \<in> set (g_requests s). req_addr r \<noteq> a)"

text \<open>
  \<open>region mp\<close> is the region of the address space a mapped plane occupies;
  \<open>payload_length mb\<close> adds up, over the planes of a view, what lies behind
  each plane's leading offset.
\<close>

definition region :: "MappedPlane \<Rightarrow> addr \<times> nat" where
  "region mp = (mp_data mp, mp_length mp)"

definition payload_length :: "MappedBuffer \<Rightarrow> nat" where
  "payload_length mb = sum_list (map (\<lambda>mp. mp_length mp - mp_offset mp) (planes mb))"

text \<open>A plane the mapping loop rejects, whatever has been mapped before it.\<close>

definition bad_plane :: "mmap_fn \<Rightarrow> Plane \<Rightarrow> bool" where
  "bad_plane mmap p =
     (plane_fd p < 0
      \<or> (plane_offset p + plane_length p) mod 2 ^ 32 = 0
      \<or> (\<forall>v. isl (mmap v (plane_fd p) ((plane_offset p + plane_length p) mod 2 ^ 32))))"

text \<open>
  \<open>target_buffer s a c si bi\<close> is the buffer that \<^verbatim>\<open>nativeMapBuffer\<close> goes on
  to map when its four lookups succeed: allocator, configuration, stream and
  buffer.
\<close>

definition target_buffer :: "state \<Rightarrow> jlong \<Rightarrow> jlong \<Rightarrow> jint \<Rightarrow> jint \<Rightarrow> FrameBuffer option" where
  "target_buffer s a c si bi =
     (case m_find (g_allocators s) a of
        None \<Rightarrow> None
      | Some alloc \<Rightarrow>
          (case m_find (g_configurations s) c of
             None \<Rightarrow> None
           | Some conf \<Rightarrow>
               (case config_at conf si of
                  Inl e \<Rightarrow> None
                | Inr sc \<Rightarrow>
                    if bi < 0 \<or> to_size_t bi \<ge> length (buffers alloc (stream sc))
                    then None
                    else Some (buffers alloc (stream sc) ! to_size_t bi))))"

text \<open>
  \<open>plane_payload mem p\<close> is the content of a mapped plane behind its leading
  offset: the bytes from \<open>data + offset\<close> up to the end of the mapping.
\<close>

definition plane_payload :: "(addr \<Rightarrow> byte) \<Rightarrow> MappedPlane \<Rightarrow> byte list" where
  "plane_payload mem p = map mem [mp_data p + mp_offset p ..< mp_data p + mp_length p]"

section \<open>Example states\<close>

text \<open>
  A camera at address 256 under handle 1, with the empty completion queue
  that \<^verbatim>\<open>nativeGetCamera\<close> creates beside it, and one request created on
  that camera under handle 2: its cookie is the camera's address, and it has
  neither controls nor metadata yet.
\<close>

definition ex_request :: Request where
  "ex_request = \<lparr>req_addr = 4096, cookie = 256,
     controls = empty_controls, metadata = empty_controls\<rparr>"

definition ex_state :: state where
  "ex_state = init_state\<lparr>g_cameras := [(1, 256)], g_requests := [(2, ex_request)],
     g_nextHandle := 3, g_completedRequests := [(1, [])]\<rparr>"



text \<open>
  A configuration with one stream under handle 2 and an allocator under handle
  3 holding one buffer for that stream: two planes of lengths 12288 and 6144
  in one descriptor, the second at offset 12288. \<open>ex_mmap\<close> is a kernel that
  maps every region it is asked for, at an address it has not used.
\<close>

definition ex_fb :: FrameBuffer where
  "ex_fb = \<lparr>fb_planes = [\<lparr>plane_fd = 5, plane_offset = 0, plane_length = 12288\<rparr>,
                          \<lparr>plane_fd = 5, plane_offset = 12288, plane_length = 6144\<rparr>]\<rparr>"

definition ex_map_state :: state where
  "ex_map_state = init_state\<lparr>g_cameras := [(1, 256)],
     g_configurations := [(2, [\<lparr>width = 128, height = 96, bufferCount = 4, stream = 512\<rparr>])],
     g_allocators := [(3, [(512, [ex_fb])])],
     g_nextHandle := 4\<rparr>"

definition ex_mmap :: mmap_fn where
  "ex_mmap v fd n = Inr (65536 + 65536 * size v)"

text \<open>A kernel that maps at most 12288 bytes at a time.\<close>

definition ex_mmap_small :: mmap_fn where
  "ex_mmap_small v fd n =
     (if n \<le> 12288 then Inr (65536 + 65536 * size v) else Inl ''Cannot allocate memory'')"



definition ex_createRequest :: "addr \<Rightarrow> nat \<Rightarrow> addr" where
  "ex_createRequest cam ck = 4096"

text \<open>
  The same, with a buffer of one plane whose offset plus length passes
  \<open>2 ^ 32\<close>: offset \<open>2 ^ 32 - 8\<close>, length 16.
\<close>

definition ex_fb_wrap :: FrameBuffer where
  "ex_fb_wrap = \<lparr>fb_planes = [\<lparr>plane_fd = 5, plane_offset = 4294967288, plane_length = 16\<rparr>]\<rparr>"

definition ex_wrap_state :: state where
  "ex_wrap_state = ex_map_state\<lparr>g_allocators := [(3, [(512, [ex_fb_wrap])])]\<rparr>"

text \<open>In \<open>ex_mem\<close> every byte of native memory is 7.\<close>

definition ex_mem :: "addr \<Rightarrow> byte" where
  "ex_mem a = 7"

section \<open>Facts about the handle tables\<close>

lemma m_find_m_put: "m_find (m_put k v m) k' = (if k' = k then Some v else m_find m k')"
  by (induction m) (auto simp: m_find_def)

lemma m_find_m_erase: "m_find (m_erase k m) k' = (if k' = k then None else m_find m k')"
  by (induction m) (auto simp: m_find_def m_erase_def)

lemma set_m_erase: "set (m_erase k m) = {p \<in> set m. fst p \<noteq> k}"
  by (auto simp: m_erase_def)

section \<open>Handle allocation\<close>

lemma alloc_n_values:
  "g_nextHandle s + int n \<le> INT64_MAX \<Longrightarrow>
   \<exists>s'. alloc_n n s = Inr (map (\<lambda>i. g_nextHandle s + int i) [0..<n], s')
        \<and> g_nextHandle s' = g_nextHandle s + int n"
proof (induction n arbitrary: s)
  case 0
  then show ?case by simp
next
  case (Suc n)
  let ?s1 = "s\<lparr>g_nextHandle := g_nextHandle s + 1\<rparr>"
  from Suc.prems have lt: "g_nextHandle s < INT64_MAX" by simp
  from Suc.prems have "g_nextHandle ?s1 + int n \<le> INT64_MAX" by simp
  from Suc.IH [OF this] obtain s' where
    a: "alloc_n n ?s1 = Inr (map (\<lambda>i. g_nextHandle ?s1 + int i) [0..<n], s')"
    and b: "g_nextHandle s' = g_nextHandle ?s1 + int n" by blast
  have m: "map (\<lambda>i. g_nextHandle s + int i) [0..<Suc n]
           = g_nextHandle s # map (\<lambda>i. g_nextHandle ?s1 + int i) [0..<n]"
    by (simp add: upt_conv_Cons map_Suc_upt [symmetric] del: upt_Suc)
  show ?case
    using lt a b unfolding m by (simp add: allocHandle_def)
qed

text \<open>
  Claim C8. Calling \<open>allocHandle\<close> \<open>N\<close> times returns \<open>N\<close> values, strictly
  increasing (hence pairwise different), none of them \<open>0\<close>, and none below the
  counter's value before the first call, so none equal to a handle returned
  earlier in the process. The counter starts at \<open>1\<close> and only \<open>allocHandle\<close>
  changes it; \<open>N\<close> ranges over what a signed 64-bit counter can count.
\<close>

theorem allocHandle_strictly_increasing:
  assumes "1 \<le> g_nextHandle s" and "g_nextHandle s + int N \<le> INT64_MAX"
  shows "\<exists>hs s'. alloc_n N s = Inr (hs, s') \<and> length hs = N
           \<and> sorted_wrt (<) hs \<and> distinct hs \<and> 0 \<notin> set hs
           \<and> (\<forall>h \<in> set hs. g_nextHandle s \<le> h \<and> h < g_nextHandle s')"
proof -
  let ?hs = "map (\<lambda>i. g_nextHandle s + int i) [0..<N]"
  from alloc_n_values [OF assms(2)] obtain s' where
    a: "alloc_n N s = Inr (?hs, s')" and b: "g_nextHandle s' = g_nextHandle s + int N"
    by blast
  have inc: "sorted_wrt (<) ?hs"
    by (simp add: sorted_wrt_map sorted_wrt_iff_nth_less)
  have dist: "distinct ?hs"
    by (simp add: distinct_map inj_on_def)
  have nz: "0 \<notin> set ?hs"
    using assms(1) by auto
  have rng: "\<forall>h \<in> set ?hs. g_nextHandle s \<le> h \<and> h < g_nextHandle s'"
    using b by auto
  from a inc dist nz rng show ?thesis by simp
qed

theorem allocHandle_strictly_increasing_witness:
  "\<exists>hs s'. alloc_n 3 init_state = Inr (hs, s') \<and> length hs = 3
     \<and> sorted_wrt (<) hs \<and> distinct hs \<and> 0 \<notin> set hs
     \<and> (\<forall>h \<in> set hs. g_nextHandle init_state \<le> h \<and> h < g_nextHandle s')"
  using allocHandle_strictly_increasing [of init_state 3]
  by (simp add: init_state_def INT64_MAX_def)

section \<open>Controls and metadata\<close>

text \<open>
  On the example request, which has not been queued and carries no metadata,
  setting the exposure time to 15000 and reading it back gives 0.
\<close>

theorem exposure_roundtrip_counterexample:
  "m_find (g_requests ex_state) 2 = Some ex_request
   \<and> fst (Request_nativeGetExposureTime 2
            (snd (Request_nativeSetExposureTime 2 15000 ex_state))) = Inr 0
   \<and> fst (Request_nativeGetExposureTime 2
            (snd (Request_nativeSetExposureTime 2 15000 ex_state))) \<noteq> Inr 15000"
  by (simp add: Request_nativeGetExposureTime_def Request_nativeSetExposureTime_def
      set_control_def ex_state_def ex_request_def init_state_def empty_controls_def m_find_def)

text \<open>
  Claim C1, as the code has it. On a valid request handle the exposure-time
  setter returns normally and stores the value in the request's outgoing
  controls. The exposure-time getter reads the request's result metadata,
  which the setter leaves alone: called after the setter it returns what it
  returned before, the exposure time reported in the metadata, or 0 when none
  has been reported.
\<close>

theorem setExposureTime_writes_controls:
  assumes "m_find (g_requests s) h = Some r"
  shows "fst (Request_nativeSetExposureTime h us s) = Inr ()
       \<and> m_find (g_requests (snd (Request_nativeSetExposureTime h us s))) h
           = Some (r\<lparr>controls := (controls r)\<lparr>ExposureTime := Some us\<rparr>\<rparr>)
       \<and> fst (Request_nativeGetExposureTime h (snd (Request_nativeSetExposureTime h us s)))
           = Inr (case ExposureTime (metadata r) of Some e \<Rightarrow> e | None \<Rightarrow> 0)
       \<and> fst (Request_nativeGetExposureTime h (snd (Request_nativeSetExposureTime h us s)))
           = fst (Request_nativeGetExposureTime h s)"
  using assms
  by (simp add: Request_nativeSetExposureTime_def set_control_def
      Request_nativeGetExposureTime_def m_find_m_put split: option.splits)

theorem setExposureTime_writes_controls_witness:
  "m_find (g_requests ex_state) 2 = Some ex_request
   \<and> fst (Request_nativeSetExposureTime 2 15000 ex_state) = Inr ()
   \<and> m_find (g_requests (snd (Request_nativeSetExposureTime 2 15000 ex_state))) 2
       = Some (ex_request\<lparr>controls := (controls ex_request)\<lparr>ExposureTime := Some 15000\<rparr>\<rparr>)
   \<and> fst (Request_nativeGetExposureTime 2 (snd (Request_nativeSetExposureTime 2 15000 ex_state)))
       = Inr 0"
proof -
  have h: "m_find (g_requests ex_state) 2 = Some ex_request"
    by (simp add: ex_state_def m_find_def)
  have m: "ExposureTime (metadata ex_request) = None"
    by (simp add: ex_request_def empty_controls_def)
  show ?thesis
    using h setExposureTime_writes_controls [OF h, of 15000] by (simp add: m)
qed

text \<open>
  Claim C9. On a valid request handle whose result metadata holds no analogue
  gain, the analogue-gain getter returns 1.0 and raises nothing.
\<close>

theorem analogueGain_default:
  assumes "m_find (g_requests s) h = Some r" and "AnalogueGain (metadata r) = None"
  shows "Request_nativeGetAnalogueGain h s = (Inr 1, s)"
  using assms by (simp add: Request_nativeGetAnalogueGain_def)

theorem analogueGain_default_witness:
  "m_find (g_requests ex_state) 2 = Some ex_request
   \<and> AnalogueGain (metadata ex_request) = None
   \<and> Request_nativeGetAnalogueGain 2 ex_state = (Inr 1, ex_state)"
proof -
  have h: "m_find (g_requests ex_state) 2 = Some ex_request"
    by (simp add: ex_state_def m_find_def)
  have m: "AnalogueGain (metadata ex_request) = None"
    by (simp add: ex_request_def empty_controls_def)
  show ?thesis using h m analogueGain_default [OF h m] by simp
qed

text \<open>
  With no request in the table, the exposure-time setter on handle 7 returns
  normally and changes nothing: no error is raised.
\<close>

theorem setter_invalid_handle_counterexample:
  "m_find (g_requests init_state) 7 = None
   \<and> Request_nativeSetExposureTime 7 15000 init_state = (Inr (), init_state)"
  by (simp add: Request_nativeSetExposureTime_def set_control_def init_state_def m_find_def)

text \<open>
  Claim C3, as the code has it. On a handle that is not in the request table,
  each of the five control setters returns normally and leaves the state as it
  was, and the metadata getters return their defaults (0 for the exposure
  time, 1.0 for the analogue gain); queueing that handle on a valid camera
  raises the exception that names the resource, "Invalid Request handle".
\<close>

theorem invalid_request_handle_outcomes:
  assumes "m_find (g_requests s) h = None"
  shows "Request_nativeSetAfMode h mode s = (Inr (), s)
       \<and> Request_nativeSetLensPosition h position s = (Inr (), s)
       \<and> Request_nativeSetAeEnable h enable s = (Inr (), s)
       \<and> Request_nativeSetExposureTime h microseconds s = (Inr (), s)
       \<and> Request_nativeSetAnalogueGain h gain s = (Inr (), s)
       \<and> Request_nativeGetExposureTime h s = (Inr 0, s)
       \<and> Request_nativeGetAnalogueGain h s = (Inr 1, s)
       \<and> (m_find (g_cameras s) c \<noteq> None \<longrightarrow>
            Camera_nativeQueueRequest queueRequest c h s
              = (Inl (LibCameraException ''Invalid Request handle''), s))"
  using assms
  by (auto simp: Request_nativeSetAfMode_def Request_nativeSetLensPosition_def
      Request_nativeSetAeEnable_def Request_nativeSetExposureTime_def
      Request_nativeSetAnalogueGain_def set_control_def Request_nativeGetExposureTime_def
      Request_nativeGetAnalogueGain_def Camera_nativeQueueRequest_def)

theorem invalid_request_handle_outcomes_witness:
  "Request_nativeSetAfMode 7 1 ex_state = (Inr (), ex_state)
   \<and> Request_nativeSetExposureTime 7 15000 ex_state = (Inr (), ex_state)
   \<and> Camera_nativeQueueRequest (\<lambda>cam req. 0) 1 7 ex_state
       = (Inl (LibCameraException ''Invalid Request handle''), ex_state)"
proof -
  have h: "m_find (g_requests ex_state) 7 = None"
    by (simp add: ex_state_def m_find_def)
  have c: "m_find (g_cameras ex_state) 1 \<noteq> None"
    by (simp add: ex_state_def m_find_def)
  from invalid_request_handle_outcomes [OF h, of 1 0 False 15000 0 1 "\<lambda>cam req. 0"] c
  show ?thesis by simp
qed

section \<open>Polling completed requests\<close>


lemma only_handle_is_first:
  assumes "m_find (g_cameras s) c = Some cam"
    and "\<forall>(c', cam') \<in> set (g_cameras s). cam' = cam \<longrightarrow> c' = c"
  shows "first_handle s c cam"
proof -
  let ?P = "\<lambda>(handle, camera). camera = cam"
  from assms(1) have mem: "(c, cam) \<in> set (g_cameras s)"
    by (simp add: m_find_def map_of_SomeD)
  then have "find ?P (g_cameras s) \<noteq> None"
    by (auto simp: find_None_iff)
  then obtain c' cam' where f: "find ?P (g_cameras s) = Some (c', cam')"
    by (cases "find ?P (g_cameras s)") auto
  then have "(c', cam') \<in> set (g_cameras s)" and "cam' = cam"
    by (auto simp: find_Some_iff in_set_conv_nth)
  with assms(2) have "c' = c" by fastforce
  with f \<open>cam' = cam\<close> show ?thesis by (simp add: first_handle_def)
qed

lemma requestCompleted_push:
  assumes "first_handle s c cam" and "cam \<noteq> 0" and "cookie r = cam"
  shows "g_requests (requestCompleted r s) = g_requests s"
    and "g_cameras (requestCompleted r s) = g_cameras s"
    and "pending (requestCompleted r s) c = pending s c @ [req_addr r]"
  using assms
  by (simp_all add: first_handle_def requestCompleted_def pending_def m_find_m_put
      split: option.splits)

lemma poll_empty:
  assumes "pending s c = []"
  shows "Camera_nativePollCompletedRequest c s = (Inr 0, s)"
  using assms
  by (simp add: Camera_nativePollCompletedRequest_def pending_def split: option.splits list.splits)

lemma poll_front:
  assumes "pending s c = a # q"
  shows "g_requests (snd (Camera_nativePollCompletedRequest c s)) = g_requests s"
    and "g_cameras (snd (Camera_nativePollCompletedRequest c s)) = g_cameras s"
    and "pending (snd (Camera_nativePollCompletedRequest c s)) c = q"
    and "fst (Camera_nativePollCompletedRequest c s)
          = Inr (case find (\<lambda>(reqHandle, request). req_addr request = a) (g_requests s) of
                   Some (reqHandle, request) \<Rightarrow> reqHandle | None \<Rightarrow> 0)"
  using assms
  by (simp_all add: Camera_nativePollCompletedRequest_def pending_def m_find_m_put Let_def
      split: option.splits list.splits prod.splits)










lemma no_request_after_erase:
  assumes "unique_requests s" and "m_find (g_requests s) h = Some r"
  shows "find (\<lambda>(reqHandle, request). req_addr request = req_addr r)
           (m_erase h (g_requests s)) = None"
proof -
  from assms(2) have mem: "(h, r) \<in> set (g_requests s)"
    by (simp add: m_find_def map_of_SomeD)
  with assms(1) have "\<forall>(h', r') \<in> set (g_requests s). req_addr r' = req_addr r \<longrightarrow> h' = h"
    unfolding unique_requests_def by fastforce
  then show ?thesis
    by (auto simp: find_None_iff set_m_erase)
qed

lemma poll_no_request:
  assumes "pending s c = a # rest" and "no_request_at s a"
  shows "fst (Camera_nativePollCompletedRequest c s) = Inr 0"
    and "pending (snd (Camera_nativePollCompletedRequest c s)) c = rest"
proof -
  note pf = poll_front [OF assms(1)]
  from assms(2) have "find (\<lambda>(reqHandle, request). req_addr request = a) (g_requests s) = None"
    by (auto simp: find_None_iff no_request_at_def)
  with pf(4) show "fst (Camera_nativePollCompletedRequest c s) = Inr 0" by simp
  from pf(3) show "pending (snd (Camera_nativePollCompletedRequest c s)) c = rest" .
qed

text \<open>
  The example request (handle 2, address 4096) completes and is destroyed; a
  new request is then created, at the address just freed, and gets handle 3.
  The poll takes the stale entry off the queue and returns handle 3, not 0.
\<close>

theorem poll_after_destroy_and_create_counterexample:
  "fst (Camera_nativePollCompletedRequest 1
         (snd (Camera_nativeCreateRequest ex_createRequest 1 0
           (snd (Request_nativeDestroy 2 (requestCompleted ex_request ex_state))))))
     = Inr 3"
  by (simp add: requestCompleted_def Request_nativeDestroy_def Camera_nativeCreateRequest_def
      Camera_nativePollCompletedRequest_def ex_state_def ex_request_def init_state_def
      ex_createRequest_def m_find_def m_erase_def allocHandle_def INT64_MAX_def Let_def)

text \<open>
  Claim C10, as the code has it. Destroying a request leaves no request at its
  address in the table. When the entry at the front of a camera's completion
  queue is the address of a destroyed request and, at the time of the poll, no
  request of the table lives at that address (as directly after the destroy),
  the poll still takes the entry off the queue and returns 0, the value it
  returns on an empty queue; what remains on the queue is what was behind the
  entry, so it is not delivered again.
\<close>

theorem poll_after_destroy:
  assumes "unique_requests s" and "m_find (g_requests s) h = Some r"
  shows "no_request_at (snd (Request_nativeDestroy h s)) (req_addr r)
       \<and> (pending s' c = req_addr r # rest \<and> no_request_at s' (req_addr r)
            \<longrightarrow> fst (Camera_nativePollCompletedRequest c s') = Inr 0
              \<and> pending (snd (Camera_nativePollCompletedRequest c s')) c = rest)
       \<and> (pending s c = req_addr r # rest
            \<longrightarrow> fst (Camera_nativePollCompletedRequest c (snd (Request_nativeDestroy h s)))
                  = Inr 0
              \<and> pending (snd (Camera_nativePollCompletedRequest c
                                (snd (Request_nativeDestroy h s)))) c = rest)
       \<and> (pending s0 c = [] \<longrightarrow> fst (Camera_nativePollCompletedRequest c s0) = Inr 0)"
proof -
  let ?s1 = "snd (Request_nativeDestroy h s)"
  have g: "g_requests ?s1 = m_erase h (g_requests s)"
    by (simp add: Request_nativeDestroy_def)
  from no_request_after_erase [OF assms]
  have n: "no_request_at ?s1 (req_addr r)"
    unfolding no_request_at_def g by (auto simp: find_None_iff)
  have p: "pending ?s1 c = pending s c"
    by (simp add: Request_nativeDestroy_def pending_def)
  show ?thesis
    using n p poll_no_request [of s' c "req_addr r" rest]
      poll_no_request [of ?s1 c "req_addr r" rest] poll_empty [of s0 c]
    by simp
qed

theorem poll_after_destroy_witness:
  "no_request_at (snd (Request_nativeDestroy 2 (requestCompleted ex_request ex_state))) 4096
   \<and> fst (Camera_nativePollCompletedRequest 1
          (snd (Request_nativeDestroy 2 (requestCompleted ex_request ex_state)))) = Inr 0
   \<and> pending (snd (Camera_nativePollCompletedRequest 1
          (snd (Request_nativeDestroy 2 (requestCompleted ex_request ex_state))))) 1 = []"
proof -
  let ?s = "requestCompleted ex_request ex_state"
  have sh: "first_handle ex_state 1 256"
    by (simp add: first_handle_def ex_state_def)
  have ck: "cookie ex_request = 256" by (simp add: ex_request_def)
  note p = requestCompleted_push [OF sh _ ck]
  have g: "g_requests ?s = g_requests ex_state" by (rule p(1)) simp
  have a: "unique_requests ?s"
    unfolding unique_requests_def g by (simp add: ex_state_def)
  have b: "m_find (g_requests ?s) 2 = Some ex_request"
    unfolding g by (simp add: ex_state_def m_find_def)
  have "pending ?s 1 = pending ex_state 1 @ [req_addr ex_request]" by (rule p(3)) simp
  then have c: "pending ?s 1 = req_addr ex_request # []"
    by (simp add: pending_def ex_state_def m_find_def)
  have ad: "req_addr ex_request = 4096" by (simp add: ex_request_def)
  from poll_after_destroy [OF a b, of "snd (Request_nativeDestroy 2 ?s)" 1 "[]"] c
  show ?thesis by (simp add: ad)
qed

section \<open>Mapping a buffer\<close>

lemma unmap_planes_restores:
  "unmap_planes mps (v + image_mset region (mset mps)) = v"
proof (induction mps arbitrary: v)
  case Nil
  then show ?case by (simp add: unmap_planes_def)
next
  case (Cons mp mps)
  have "unmap_planes (mp # mps) (v + image_mset region (mset (mp # mps)))
        = unmap_planes mps (munmap (mp_data mp) (mp_length mp)
            (add_mset (region mp) (v + image_mset region (mset mps))))"
    by (simp add: unmap_planes_def)
  also have "\<dots> = unmap_planes mps (v + image_mset region (mset mps))"
    by (simp add: munmap_def region_def)
  also have "\<dots> = v" by (rule Cons.IH)
  finally show ?case .
qed

lemma region_mk: "region \<lparr>mp_data = d, mp_length = n, mp_offset = off\<rparr> = (d, n)"
  by (simp add: region_def)

lemma map_planes_fail:
  "map_planes mmap ps i mb v = (Inl msg, v') \<Longrightarrow> v = v0 + mset (map region (planes mb))
   \<Longrightarrow> v' = v0"
proof (induction ps arbitrary: i mb v)
  case Nil
  then show ?case by simp
next
  case (Cons p ps)
  let ?n = "(plane_offset p + plane_length p) mod 2 ^ 32"
  show ?case
  proof (cases "plane_fd p < 0 \<or> ?n = 0 \<or> isl (mmap v (plane_fd p) ?n)")
    case True
    with Cons.prems(1) have "v' = unmap_planes (planes mb) v"
      by (auto simp: Let_def isl_def split: if_splits)
    with Cons.prems(2) show ?thesis by (simp add: unmap_planes_restores)
  next
    case False
    then obtain d where d: "mmap v (plane_fd p) ?n = Inr d"
      by (cases "mmap v (plane_fd p) ?n") auto
    let ?mb = "\<lparr>planes = planes mb @ [\<lparr>mp_data = d, mp_length = ?n, mp_offset = plane_offset p\<rparr>],
                totalLength = (totalLength mb + plane_length p) mod 2 ^ 64\<rparr>"
    from False d Cons.prems(1)
    have r: "map_planes mmap ps (i + 1) ?mb (add_mset (d, ?n) v) = (Inl msg, v')"
      by (simp add: Let_def)
    have "add_mset (d, ?n) v = v0 + mset (map region (planes ?mb))"
      using Cons.prems(2) by (simp add: region_mk)
    from Cons.IH [OF r this] show ?thesis .
  qed
qed

lemma map_planes_bad:
  "\<exists>p \<in> set ps. bad_plane mmap p \<Longrightarrow> isl (fst (map_planes mmap ps i mb v))"
proof (induction ps arbitrary: i mb v)
  case Nil
  then show ?case by simp
next
  case (Cons p ps)
  let ?n = "(plane_offset p + plane_length p) mod 2 ^ 32"
  show ?case
  proof (cases "plane_fd p < 0 \<or> ?n = 0 \<or> isl (mmap v (plane_fd p) ?n)")
    case True
    then show ?thesis by (auto simp: Let_def isl_def)
  next
    case False
    then obtain d where d: "mmap v (plane_fd p) ?n = Inr d"
      by (cases "mmap v (plane_fd p) ?n") auto
    from False have "\<not> bad_plane mmap p" by (auto simp: bad_plane_def)
    with Cons.prems have "\<exists>p \<in> set ps. bad_plane mmap p" by simp
    from Cons.IH [OF this] False d show ?thesis by (simp add: Let_def)
  qed
qed

lemma map_planes_ok:
  "map_planes mmap ps i mb v = (Inr mb', v') \<Longrightarrow>
   \<forall>p \<in> set ps. plane_offset p + plane_length p < 2 ^ 32 \<Longrightarrow>
   totalLength mb < 2 ^ 64 \<Longrightarrow>
   totalLength mb' = (totalLength mb + sum_list (map plane_length ps)) mod 2 ^ 64
   \<and> payload_length mb' = payload_length mb + sum_list (map plane_length ps)"
proof (induction ps arbitrary: i mb v)
  case Nil
  then show ?case by simp
next
  case (Cons p ps)
  let ?n = "(plane_offset p + plane_length p) mod 2 ^ 32"
  from Cons.prems(1) obtain d where d: "mmap v (plane_fd p) ?n = Inr d"
    by (cases "mmap v (plane_fd p) ?n") (auto simp: Let_def split: if_splits)
  let ?mb = "\<lparr>planes = planes mb @ [\<lparr>mp_data = d, mp_length = ?n, mp_offset = plane_offset p\<rparr>],
              totalLength = (totalLength mb + plane_length p) mod 2 ^ 64\<rparr>"
  from d Cons.prems(1)
  have r: "map_planes mmap ps (i + 1) ?mb (add_mset (d, ?n) v) = (Inr mb', v')"
    by (auto simp: Let_def split: if_splits)
  from Cons.prems(2) have n: "?n = plane_offset p + plane_length p" by simp
  from Cons.prems(2) have "\<forall>p \<in> set ps. plane_offset p + plane_length p < 2 ^ 32" by simp
  have "totalLength ?mb < 2 ^ 64" by simp
  from Cons.IH [OF r \<open>\<forall>p \<in> set ps. plane_offset p + plane_length p < 2 ^ 32\<close> this] n
  show ?case
    by (simp add: payload_length_def mod_simps add.assoc)
qed

lemma map_planes_view:
  "map_planes mmap ps i mb0 v = (Inr mb, v') \<Longrightarrow>
   \<forall>p \<in> set ps. plane_offset p + plane_length p < 2 ^ 32 \<Longrightarrow>
   \<exists>mps. planes mb = planes mb0 @ mps
        \<and> map mp_offset mps = map plane_offset ps
        \<and> map mp_length mps = map (\<lambda>p. plane_offset p + plane_length p) ps"
proof (induction ps arbitrary: i mb0 v)
  case Nil
  then show ?case by simp
next
  case (Cons p ps)
  let ?n = "(plane_offset p + plane_length p) mod 2 ^ 32"
  from Cons.prems(1) obtain d where d: "mmap v (plane_fd p) ?n = Inr d"
    by (cases "mmap v (plane_fd p) ?n") (auto simp: Let_def split: if_splits)
  let ?mp = "\<lparr>mp_data = d, mp_length = ?n, mp_offset = plane_offset p\<rparr>"
  let ?mb = "\<lparr>planes = planes mb0 @ [?mp],
              totalLength = (totalLength mb0 + plane_length p) mod 2 ^ 64\<rparr>"
  from d Cons.prems(1)
  have r: "map_planes mmap ps (i + 1) ?mb (add_mset (d, ?n) v) = (Inr mb, v')"
    by (auto simp: Let_def split: if_splits)
  from Cons.prems(2) have n: "?n = plane_offset p + plane_length p" by simp
  from Cons.prems(2) have "\<forall>p \<in> set ps. plane_offset p + plane_length p < 2 ^ 32" by simp
  from Cons.IH [OF r this] obtain mps where
    m: "planes mb = planes ?mb @ mps" "map mp_offset mps = map plane_offset ps"
       "map mp_length mps = map (\<lambda>p. plane_offset p + plane_length p) ps"
    by blast
  have "planes mb = planes mb0 @ (?mp # mps)" using m(1) by simp
  moreover have "map mp_offset (?mp # mps) = map plane_offset (p # ps)" using m(2) by simp
  moreover have "map mp_length (?mp # mps)
                 = map (\<lambda>p. plane_offset p + plane_length p) (p # ps)"
    using m(3) n by simp
  ultimately show ?case by blast
qed

lemma mapBuffer_target:
  assumes "target_buffer s a c si bi = Some fb"
  shows "FrameBuffer_nativeMapBuffer mmap a c si bi s =
           (if fb_planes fb = [] then (Inl (LibCameraException ''FrameBuffer has no planes''), s)
            else
              (case map_planes mmap (fb_planes fb) 0 \<lparr>planes = [], totalLength = 0\<rparr> (vm s) of
                 (Inl msg, v) \<Rightarrow> (Inl (LibCameraException msg), s\<lparr>vm := v\<rparr>)
               | (Inr mappedBuffer, v) \<Rightarrow>
                   (case allocHandle (s\<lparr>vm := v\<rparr>) of
                      Inl e \<Rightarrow> (Inl e, s\<lparr>vm := v\<rparr>)
                    | Inr (mapHandle, s') \<Rightarrow>
                        (Inr mapHandle,
                         s'\<lparr>g_mappedBuffers :=
                              m_put mapHandle mappedBuffer (g_mappedBuffers s')\<rparr>))))"
proof -
  from assms obtain alloc conf sc where
    l: "m_find (g_allocators s) a = Some alloc" "m_find (g_configurations s) c = Some conf"
       "config_at conf si = Inr sc"
       "\<not> (bi < 0 \<or> length (buffers alloc (stream sc)) \<le> to_size_t bi)"
       "fb = buffers alloc (stream sc) ! to_size_t bi"
    by (auto simp: target_buffer_def split: option.splits sum.splits if_splits)
  then show ?thesis
    unfolding FrameBuffer_nativeMapBuffer_def by (simp add: Let_def)
qed

lemma map_planes_fail_empty:
  "map_planes mmap ps 0 \<lparr>planes = [], totalLength = 0\<rparr> v = (Inl m, v') \<Longrightarrow> v' = v"
  using map_planes_fail [of mmap ps 0 "\<lparr>planes = [], totalLength = 0\<rparr>" v m v' v] by simp

lemma mapBuffer_exception_keeps_state:
  assumes "fst (FrameBuffer_nativeMapBuffer mmap a c si bi s) = Inl (LibCameraException msg)"
  shows "snd (FrameBuffer_nativeMapBuffer mmap a c si bi s) = s"
  using assms unfolding FrameBuffer_nativeMapBuffer_def
  by (auto simp: Let_def allocHandle_def
      split: option.splits sum.splits if_splits prod.splits dest!: map_planes_fail_empty)

lemma mapBuffer_registers:
  assumes "target_buffer s a c si bi = Some fb"
    and "fst (FrameBuffer_nativeMapBuffer mmap a c si bi s) = Inr h"
  shows "\<exists>mb v. map_planes mmap (fb_planes fb) 0 \<lparr>planes = [], totalLength = 0\<rparr> (vm s)
                   = (Inr mb, v)
              \<and> m_find (g_mappedBuffers (snd (FrameBuffer_nativeMapBuffer mmap a c si bi s))) h
                   = Some mb"
proof -
  obtain r v where mp: "map_planes mmap (fb_planes fb) 0 \<lparr>planes = [], totalLength = 0\<rparr> (vm s)
                        = (r, v)"
    by (cases "map_planes mmap (fb_planes fb) 0 \<lparr>planes = [], totalLength = 0\<rparr> (vm s)")
  from assms(2) mp obtain mb where r: "r = Inr mb"
    by (cases r) (auto simp: mapBuffer_target [OF assms(1)] split: if_splits)
  from assms(2) mp r
  have "m_find (g_mappedBuffers (snd (FrameBuffer_nativeMapBuffer mmap a c si bi s))) h = Some mb"
    by (auto simp: mapBuffer_target [OF assms(1)] allocHandle_def m_find_m_put
        split: if_splits)
  with mp r show ?thesis by blast
qed

lemma mapBuffer_view:
  assumes "target_buffer s a c si bi = Some fb"
    and "\<forall>p \<in> set (fb_planes fb). plane_offset p + plane_length p < 2 ^ 32"
    and "fst (FrameBuffer_nativeMapBuffer mmap a c si bi s) = Inr h"
    and "m_find (g_mappedBuffers (snd (FrameBuffer_nativeMapBuffer mmap a c si bi s))) h = Some mb"
  shows "map mp_offset (planes mb) = map plane_offset (fb_planes fb)"
    and "map mp_length (planes mb)
           = map (\<lambda>p. plane_offset p + plane_length p) (fb_planes fb)"
    and "totalLength mb = sum_list (map plane_length (fb_planes fb)) mod 2 ^ 64"
    and "payload_length mb = sum_list (map plane_length (fb_planes fb))"
proof -
  from mapBuffer_registers [OF assms(1) assms(3)] assms(4) obtain v where
    mp: "map_planes mmap (fb_planes fb) 0 \<lparr>planes = [], totalLength = 0\<rparr> (vm s) = (Inr mb, v)"
    by auto
  from map_planes_view [OF mp assms(2)]
  show "map mp_offset (planes mb) = map plane_offset (fb_planes fb)"
    and "map mp_length (planes mb)
           = map (\<lambda>p. plane_offset p + plane_length p) (fb_planes fb)"
    by auto
  from map_planes_ok [OF mp assms(2)]
  show "totalLength mb = sum_list (map plane_length (fb_planes fb)) mod 2 ^ 64"
    and "payload_length mb = sum_list (map plane_length (fb_planes fb))"
    by (simp_all add: payload_length_def)
qed

lemma ex_target: "target_buffer ex_map_state 3 2 0 0 = Some ex_fb"
  by (simp add: target_buffer_def ex_map_state_def init_state_def m_find_def
      config_at_def to_uint_def to_size_t_def buffers_def)

lemma ex_map_result:
  "FrameBuffer_nativeMapBuffer ex_mmap 3 2 0 0 ex_map_state =
     (Inr 4, ex_map_state\<lparr>g_nextHandle := 5,
        g_mappedBuffers := [(4, \<lparr>planes = [\<lparr>mp_data = 65536, mp_length = 12288, mp_offset = 0\<rparr>,
                                          \<lparr>mp_data = 131072, mp_length = 18432, mp_offset = 12288\<rparr>],
                                totalLength = 18432\<rparr>)],
        vm := {#(131072, 18432), (65536, 12288)#}\<rparr>)"
  by (simp only: mapBuffer_target [OF ex_target])
     (simp add: ex_fb_def ex_mmap_def Let_def allocHandle_def
        INT64_MAX_def ex_map_state_def init_state_def)

text \<open>
  Claim C2 at stream index 1, and at stream index -1, of a configuration that
  has one stream: \<^verbatim>\<open>nativeMapBuffer\<close> passes the index to \<^verbatim>\<open>at\<close> unchecked,
  where \<^verbatim>\<open>nativeAllocate\<close> on the same handles raises "Invalid stream index".
  The buffer index is checked: buffer 7 of a stream with one buffer raises
  "Invalid buffer index".
\<close>

theorem mapBuffer_stream_index_unchecked:
  "target_buffer ex_map_state 3 2 0 0 = Some ex_fb
   \<and> fst (FrameBuffer_nativeMapBuffer mmap 3 2 1 0 ex_map_state) = Inl UndefinedBehaviour
   \<and> fst (FrameBuffer_nativeMapBuffer mmap 3 2 (- 1) 0 ex_map_state) = Inl UndefinedBehaviour
   \<and> fst (FrameBufferAllocator_nativeAllocate allocate 3 2 1 ex_map_state)
       = Inl (LibCameraException ''Invalid stream index'')
   \<and> fst (FrameBufferAllocator_nativeAllocate allocate 3 2 (- 1) ex_map_state)
       = Inl (LibCameraException ''Invalid stream index'')
   \<and> fst (FrameBuffer_nativeMapBuffer mmap 3 2 0 7 ex_map_state)
       = Inl (LibCameraException ''Invalid buffer index'')
   \<and> fst (FrameBuffer_nativeMapBuffer mmap 3 2 0 (- 1) ex_map_state)
       = Inl (LibCameraException ''Invalid buffer index'')"
  by (simp add: target_buffer_def FrameBuffer_nativeMapBuffer_def
      FrameBufferAllocator_nativeAllocate_def ex_map_state_def init_state_def m_find_def
      config_at_def to_uint_def to_size_t_def buffers_def)

text \<open>
  Claim C6. Whenever \<^verbatim>\<open>nativeMapBuffer\<close> raises its exception the state is
  what it was before the call: the same regions are mapped, no view is
  registered and no handle is used up. And it does raise whenever the buffer
  it is to map has a plane with a negative descriptor, with a computed size of
  zero, or that the kernel refuses to map.
\<close>

theorem map_all_or_nothing:
  "(fst (FrameBuffer_nativeMapBuffer mmap a c si bi s) = Inl (LibCameraException msg)
      \<longrightarrow> snd (FrameBuffer_nativeMapBuffer mmap a c si bi s) = s)
   \<and> (target_buffer s a c si bi = Some fb \<and> (\<exists>p \<in> set (fb_planes fb). bad_plane mmap p)
      \<longrightarrow> (\<exists>m. FrameBuffer_nativeMapBuffer mmap a c si bi s = (Inl (LibCameraException m), s)))"
proof (intro conjI impI)
  assume "fst (FrameBuffer_nativeMapBuffer mmap a c si bi s) = Inl (LibCameraException msg)"
  then show "snd (FrameBuffer_nativeMapBuffer mmap a c si bi s) = s"
    by (rule mapBuffer_exception_keeps_state)
next
  assume h: "target_buffer s a c si bi = Some fb \<and> (\<exists>p \<in> set (fb_planes fb). bad_plane mmap p)"
  then have tb: "target_buffer s a c si bi = Some fb"
    and bad: "\<exists>p \<in> set (fb_planes fb). bad_plane mmap p" by simp_all
  let ?M = "FrameBuffer_nativeMapBuffer mmap a c si bi s"
  from bad have ne: "fb_planes fb \<noteq> []" by auto
  from map_planes_bad [OF bad, of 0 "\<lparr>planes = [], totalLength = 0\<rparr>" "vm s"]
  obtain m v where mp: "map_planes mmap (fb_planes fb) 0 \<lparr>planes = [], totalLength = 0\<rparr> (vm s)
                        = (Inl m, v)"
    by (cases "map_planes mmap (fb_planes fb) 0 \<lparr>planes = [], totalLength = 0\<rparr> (vm s)")
       (auto simp: isl_def)
  from mp ne have f: "fst ?M = Inl (LibCameraException m)"
    by (simp add: mapBuffer_target [OF tb])
  from mapBuffer_exception_keeps_state [OF f] f
  have "?M = (Inl (LibCameraException m), s)"
    by (simp add: prod_eq_iff)
  then show "\<exists>m. ?M = (Inl (LibCameraException m), s)" ..
qed

theorem map_all_or_nothing_witness:
  "FrameBuffer_nativeMapBuffer ex_mmap_small 3 2 0 0 ex_map_state
     = (Inl (LibCameraException
          ''Failed to mmap buffer plane 1 (fd=5, size=18432): Cannot allocate memory''),
        ex_map_state)"
proof -
  have bad: "\<exists>p \<in> set (fb_planes ex_fb). bad_plane ex_mmap_small p"
    by (simp add: ex_fb_def bad_plane_def ex_mmap_small_def)
  have f: "fst (FrameBuffer_nativeMapBuffer ex_mmap_small 3 2 0 0 ex_map_state)
           = Inl (LibCameraException
               ''Failed to mmap buffer plane 1 (fd=5, size=18432): Cannot allocate memory'')"
    by (simp only: mapBuffer_target [OF ex_target])
       (simp add: ex_fb_def ex_mmap_small_def Let_def msg_mmap_failed_def digit_def show_nat.simps)
  from map_all_or_nothing [of ex_mmap_small 3 2 0 0 ex_map_state _ ex_fb] ex_target bad f
  show ?thesis by (auto simp: prod_eq_iff)
qed

text \<open>
  The example buffer declares the leading offsets 0 and 12288. Its view has
  the length 18432, not 18432 less the offsets.
\<close>

theorem getLength_ignores_offsets_counterexample:
  "sum_list (map plane_offset (fb_planes ex_fb)) = 12288
   \<and> fst (FrameBuffer_nativeGetBufferSize 4
            (snd (FrameBuffer_nativeMapBuffer ex_mmap 3 2 0 0 ex_map_state))) = Inr 18432
   \<and> fst (FrameBuffer_nativeGetBufferSize 4
            (snd (FrameBuffer_nativeMapBuffer ex_mmap 3 2 0 0 ex_map_state)))
       \<noteq> Inr (18432 - int (sum_list (map plane_offset (fb_planes ex_fb))))"
  by (simp add: ex_map_result FrameBuffer_nativeGetBufferSize_def m_find_def to_jint_def ex_fb_def)

text \<open>
  Claim C5, as the code has it. After a successful \<^verbatim>\<open>nativeMapBuffer\<close> the
  length of the view is the sum of the declared lengths of the buffer's
  planes, whatever offsets they declare, and this is the sum over the mapped
  planes of the mapped length less the leading offset. (No plane's offset
  plus length reaches \<open>2 ^ 32\<close>, and the sum fits a \<^verbatim>\<open>jint\<close>.) Two planes of
  lengths 12288 and 6144 give 18432.
\<close>

theorem getLength_sum_of_plane_lengths:
  assumes "target_buffer s a c si bi = Some fb"
    and "\<forall>p \<in> set (fb_planes fb). plane_offset p + plane_length p < 2 ^ 32"
    and "sum_list (map plane_length (fb_planes fb)) < 2 ^ 31"
    and "fst (FrameBuffer_nativeMapBuffer mmap a c si bi s) = Inr h"
  shows "fst (FrameBuffer_nativeGetBufferSize h
                (snd (FrameBuffer_nativeMapBuffer mmap a c si bi s)))
           = Inr (int (sum_list (map plane_length (fb_planes fb))))
       \<and> map_option payload_length
            (m_find (g_mappedBuffers (snd (FrameBuffer_nativeMapBuffer mmap a c si bi s))) h)
           = Some (sum_list (map plane_length (fb_planes fb)))"
proof -
  let ?M = "FrameBuffer_nativeMapBuffer mmap a c si bi s"
  let ?n = "sum_list (map plane_length (fb_planes fb))"
  obtain r v where mp: "map_planes mmap (fb_planes fb) 0 \<lparr>planes = [], totalLength = 0\<rparr> (vm s)
                        = (r, v)"
    by (cases "map_planes mmap (fb_planes fb) 0 \<lparr>planes = [], totalLength = 0\<rparr> (vm s)")
  from assms(4) mp obtain mb where r: "r = Inr mb"
    by (cases r) (auto simp: mapBuffer_target [OF assms(1)] split: if_splits)
  from assms(4) mp r have reg: "m_find (g_mappedBuffers (snd ?M)) h = Some mb"
    by (auto simp: mapBuffer_target [OF assms(1)] allocHandle_def m_find_m_put
        split: if_splits)
  from map_planes_ok [OF mp [unfolded r] assms(2)]
  have tl: "totalLength mb = ?n mod 2 ^ 64" and pl: "payload_length mb = ?n"
    by (simp_all add: payload_length_def)
  from assms(3) have "?n < 2 ^ 64" by simp
  with tl have tl': "totalLength mb = ?n" by simp
  from assms(3) have "to_jint (int ?n) = int ?n"
    by (simp add: to_jint_def)
  with reg tl' pl show ?thesis
    by (simp add: FrameBuffer_nativeGetBufferSize_def)
qed

theorem getLength_sum_of_plane_lengths_witness:
  "fst (FrameBuffer_nativeGetBufferSize 4
          (snd (FrameBuffer_nativeMapBuffer ex_mmap 3 2 0 0 ex_map_state))) = Inr 18432
   \<and> map_option payload_length
        (m_find (g_mappedBuffers (snd (FrameBuffer_nativeMapBuffer ex_mmap 3 2 0 0 ex_map_state))) 4)
       = Some 18432"
proof -
  have b: "\<forall>p \<in> set (fb_planes ex_fb). plane_offset p + plane_length p < 2 ^ 32"
    by (simp add: ex_fb_def)
  have c: "sum_list (map plane_length (fb_planes ex_fb)) < 2 ^ 31"
    by (simp add: ex_fb_def)
  have d: "fst (FrameBuffer_nativeMapBuffer ex_mmap 3 2 0 0 ex_map_state) = Inr 4"
    by (simp add: ex_map_result)
  have e: "sum_list (map plane_length (fb_planes ex_fb)) = 18432"
    by (simp add: ex_fb_def)
  from getLength_sum_of_plane_lengths [OF ex_target b c d] show ?thesis
    by (simp only: e) simp
qed

section \<open>Copying out of a view\<close>

lemma to_jint_id: "0 \<le> x \<Longrightarrow> x < 2 ^ 31 \<Longrightarrow> to_jint x = x"
  by (simp add: to_jint_def)

lemma wrap_sub:
  fixes a b m :: nat
  assumes "b \<le> a" and "a < m"
  shows "(a + m - b) mod m = a - b"
proof -
  have e: "a + m - b = a - b + m"
    by (rule add_diff_assoc2 [OF assms(1), symmetric])
  have lt: "a - b < m" using assms(2) by arith
  have "(a - b + m) mod m = (a - b) mod m" by (rule mod_add_self2)
  also have "\<dots> = a - b" using lt by (rule mod_less)
  finally show ?thesis by (simp only: e)
qed

lemma size_t_sub_id:
  assumes "b \<le> a" and "a < 2 ^ 64"
  shows "size_t_sub a b = a - b"
  unfolding size_t_sub_def using assms by (rule wrap_sub)

lemma SetByteArrayRegion_fits:
  assumes "0 \<le> start" and "nat start + n \<le> length array"
    and "readable data maplen buf n"
  shows "SetByteArrayRegion mem data maplen array start (int n) buf exc =
           Inr (take (nat start) array @ map mem [buf ..< buf + n]
                  @ drop (nat start + n) array, exc)"
proof -
  have "start + int n \<le> int (length array)" using assms(1,2) by linarith
  then show ?thesis using assms(1,3) by (simp add: SetByteArrayRegion_def)
qed

lemma SetByteArrayRegion_length:
  assumes "SetByteArrayRegion mem data maplen array start len buf exc = Inr (array', exc')"
  shows "length array' = length array"
proof (cases "start < 0 \<or> len < 0 \<or> int (length array) < start + len")
  case True
  with assms show ?thesis by (auto simp: SetByteArrayRegion_def)
next
  case False
  then have "nat start + nat len \<le> length array" by linarith
  with False assms show ?thesis
    by (auto simp: SetByteArrayRegion_def split: if_splits)
qed

lemma copy_planes_length:
  "copy_planes mem ps dO remaining dest exc = Inr (dest', exc') \<Longrightarrow> length dest' = length dest"
proof (induction ps arbitrary: dO remaining dest exc)
  case Nil
  then show ?case by simp
next
  case (Cons p ps)
  show ?case
  proof (cases "remaining = 0")
    case True
    with Cons.prems show ?thesis by simp
  next
    case False
    let ?cl = "min remaining (size_t_sub (mp_length p) (mp_offset p))"
    let ?r = "SetByteArrayRegion mem (mp_data p) (mp_length p) dest dO (to_jint (int ?cl))
                (mp_data p + mp_offset p) exc"
    from False Cons.prems obtain d1 e1 where r: "?r = Inr (d1, e1)"
      by (cases ?r) (auto simp: Let_def)
    with False Cons.prems
    have "copy_planes mem ps (to_jint (dO + int ?cl)) (remaining - ?cl) d1 e1 = Inr (dest', exc')"
      by (simp add: Let_def)
    then have "length dest' = length d1" by (rule Cons.IH)
    also have "\<dots> = length dest" using r by (rule SetByteArrayRegion_length)
    finally show ?thesis .
  qed
qed

lemma sub_min_le: "(r::nat) \<le> a + b \<Longrightarrow> r - min r a \<le> b"
  by arith

lemma splice_take:
  assumes "a + n \<le> length xs" and "length ys = n"
  shows "take (a + n) (take a xs @ ys @ drop (a + n) xs) = take a xs @ ys"
  using assms by simp

lemma splice_drop:
  assumes "a + n \<le> length xs" and "length ys = n"
  shows "drop (a + n + k) (take a xs @ ys @ drop (a + n) xs) = drop (a + n + k) xs"
  using assms by (simp add: add.commute add.left_commute)

lemma splice_length:
  assumes "a + n \<le> length xs" and "length ys = n"
  shows "length (take a xs @ ys @ drop (a + n) xs) = length xs"
  using assms by simp

lemma take_payload:
  assumes "n \<le> mp_length p - mp_offset p"
  shows "map mem [mp_data p + mp_offset p ..< mp_data p + mp_offset p + n]
           = take n (plane_payload mem p)"
proof (cases "n = 0")
  case True
  then show ?thesis by simp
next
  case False
  with assms have "mp_data p + mp_offset p + n \<le> mp_data p + mp_length p" by simp
  then have "take n [mp_data p + mp_offset p ..< mp_data p + mp_length p]
          = [mp_data p + mp_offset p ..< mp_data p + mp_offset p + n]"
    by (rule take_upt)
  then show ?thesis by (simp add: plane_payload_def take_map)
qed

lemma length_payload: "length (plane_payload mem p) = mp_length p - mp_offset p"
  by (simp add: plane_payload_def)

lemma copy_planes_fits:
  assumes "\<forall>p \<in> set ps. mp_offset p \<le> mp_length p \<and> mp_length p < 2 ^ 64"
    and "0 \<le> dO" and "nat dO + remaining \<le> length dest" and "length dest < 2 ^ 31"
    and "remaining \<le> sum_list (map (\<lambda>p. mp_length p - mp_offset p) ps)"
  shows "copy_planes mem ps dO remaining dest exc =
           Inr (take (nat dO) dest @ take remaining (concat (map (plane_payload mem) ps))
                  @ drop (nat dO + remaining) dest, exc)"
  using assms
proof (induction ps arbitrary: dO remaining dest)
  case Nil
  then show ?case by simp
next
  case (Cons p ps)
  show ?case
  proof (cases "remaining = 0")
    case True
    then show ?thesis by simp
  next
    case False
    let ?plen = "mp_length p - mp_offset p"
    let ?cl = "min remaining ?plen"
    let ?pd = "mp_data p + mp_offset p"
    let ?ys = "take ?cl (plane_payload mem p)"
    let ?dest' = "take (nat dO) dest @ ?ys @ drop (nat dO + ?cl) dest"
    from Cons.prems(1) have wf: "mp_offset p \<le> mp_length p" "mp_length p < 2 ^ 64" by simp_all
    have sub: "size_t_sub (mp_length p) (mp_offset p) = ?plen"
      using wf by (rule size_t_sub_id)
    have cl_le: "?cl \<le> remaining" by simp
    have fit: "nat dO + ?cl \<le> length dest" using Cons.prems(3) by simp
    have small: "int ?cl < 2 ^ 31" using fit Cons.prems(4) by simp
    have j1: "to_jint (int ?cl) = int ?cl"
      using small by (simp add: to_jint_id)
    have "dO + int ?cl \<le> int (length dest)" using fit Cons.prems(2) by simp
    then have "dO + int ?cl < 2 ^ 31" using Cons.prems(4) by simp
    then have j2: "to_jint (dO + int ?cl) = dO + int ?cl"
      using Cons.prems(2) by (simp add: to_jint_id)
    have ys: "map mem [?pd ..< ?pd + ?cl] = ?ys"
      by (rule take_payload) simp
    have len_ys: "length ?ys = ?cl"
      by (simp add: length_payload)
    have rd: "readable (mp_data p) (mp_length p) ?pd ?cl"
      using wf(1) by (simp add: readable_def)
    have set: "SetByteArrayRegion mem (mp_data p) (mp_length p) dest dO (int ?cl) ?pd exc
               = Inr (?dest', exc)"
      using SetByteArrayRegion_fits [OF Cons.prems(2) fit rd, of mem exc] ys by simp
    have step: "copy_planes mem (p # ps) dO remaining dest exc
                = copy_planes mem ps (dO + int ?cl) (remaining - ?cl) ?dest' exc"
      using False sub j1 j2 set by (simp add: Let_def)
    have nat_dO: "nat (dO + int ?cl) = nat dO + ?cl"
      using Cons.prems(2) by (simp add: nat_add_distrib)
    have len': "length ?dest' = length dest"
      using splice_length [OF fit len_ys] .
    have p1: "\<forall>p \<in> set ps. mp_offset p \<le> mp_length p \<and> mp_length p < 2 ^ 64"
      using Cons.prems(1) by simp
    have p2: "0 \<le> dO + int ?cl" using Cons.prems(2) by simp
    have p3: "nat (dO + int ?cl) + (remaining - ?cl) \<le> length ?dest'"
      using Cons.prems(3) nat_dO len' by simp
    have p4: "length ?dest' < 2 ^ 31" using Cons.prems(4) len' by simp
    have p5: "remaining - ?cl \<le> sum_list (map (\<lambda>p. mp_length p - mp_offset p) ps)"
    proof (rule sub_min_le)
      show "remaining \<le> ?plen + sum_list (map (\<lambda>p. mp_length p - mp_offset p) ps)"
        using Cons.prems(5) by simp
    qed
    have ih: "copy_planes mem ps (dO + int ?cl) (remaining - ?cl) ?dest' exc =
           Inr (take (nat (dO + int ?cl)) ?dest'
              @ take (remaining - ?cl) (concat (map (plane_payload mem) ps))
              @ drop (nat (dO + int ?cl) + (remaining - ?cl)) ?dest', exc)"
      by (rule Cons.IH [OF p1 p2 p3 p4 p5])
    have t: "take (nat dO + ?cl) ?dest' = take (nat dO) dest @ ?ys"
      by (rule splice_take [OF fit len_ys])
    have d: "drop (nat dO + ?cl + (remaining - ?cl)) ?dest'
             = drop (nat dO + ?cl + (remaining - ?cl)) dest"
      by (rule splice_drop [OF fit len_ys])
    have idx: "nat dO + ?cl + (remaining - ?cl) = nat dO + remaining" by simp
    have d': "drop (nat dO + remaining) ?dest' = drop (nat dO + remaining) dest"
      using d by (simp only: idx)
    have pay: "take remaining (concat (map (plane_payload mem) (p # ps)))
               = ?ys @ take (remaining - ?cl) (concat (map (plane_payload mem) ps))"
    proof (cases "remaining \<le> ?plen")
      case True
      then show ?thesis by (simp add: length_payload min_def)
    next
      case False
      then show ?thesis by (simp add: length_payload min_def)
    qed
    have "copy_planes mem (p # ps) dO remaining dest exc
          = Inr (take (nat dO + ?cl) ?dest'
              @ take (remaining - ?cl) (concat (map (plane_payload mem) ps))
              @ drop (nat dO + ?cl + (remaining - ?cl)) ?dest', exc)"
      using step ih by (simp only: nat_dO)
    also have "\<dots> = Inr ((take (nat dO) dest @ ?ys)
              @ take (remaining - ?cl) (concat (map (plane_payload mem) ps))
              @ drop (nat dO + remaining) dest, exc)"
      by (simp only: t idx d')
    also have "\<dots> = Inr (take (nat dO) dest
              @ take remaining (concat (map (plane_payload mem) (p # ps)))
              @ drop (nat dO + remaining) dest, exc)"
      by (simp only: pay append_assoc)
    finally show ?thesis .
  qed
qed

lemma to_size_t_id: "0 \<le> x \<Longrightarrow> x < 2 ^ 31 \<Longrightarrow> to_size_t x = nat x"
proof -
  assume a: "0 \<le> x" and b: "x < 2 ^ 31"
  have "(2::int) ^ 31 \<le> 2 ^ 64" by simp
  with b have "x < 2 ^ 64" by linarith
  with a have "x mod 2 ^ 64 = x" by (rule mod_pos_pos_trivial)
  then show ?thesis by (simp only: to_size_t_def)
qed

lemma copyBuffer_length:
  "length (snd (FrameBuffer_nativeCopyBuffer mem h dest destOffset maxLength s)) = length dest"
proof (cases "m_find (g_mappedBuffers s) h")
  case None
  then show ?thesis by (simp add: FrameBuffer_nativeCopyBuffer_def)
next
  case (Some mb)
  let ?c = "copy_planes mem (planes mb) destOffset
              (min (to_size_t maxLength) (totalLength mb)) dest None"
  show ?thesis
  proof (cases ?c)
    case (Inl e)
    with Some show ?thesis by (simp add: FrameBuffer_nativeCopyBuffer_def Let_def)
  next
    case (Inr r)
    obtain d e where r: "r = (d, e)" by (cases r)
    from Inr r have "length d = length dest" by (simp add: copy_planes_length)
    with Some Inr r show ?thesis
      by (simp add: FrameBuffer_nativeCopyBuffer_def Let_def split: option.splits)
  qed
qed

lemma view_wellformed:
  assumes "map mp_offset (planes mb) = map plane_offset ps"
    and "map mp_length (planes mb) = map (\<lambda>p. plane_offset p + plane_length p) ps"
    and "\<forall>p \<in> set ps. plane_offset p + plane_length p < 2 ^ 32"
  shows "\<forall>mp \<in> set (planes mb). mp_offset mp \<le> mp_length mp \<and> mp_length mp < 2 ^ 64"
    and "map (\<lambda>mp. mp_length mp - mp_offset mp) (planes mb) = map plane_length ps"
proof -
  have len: "length (planes mb) = length ps"
    using assms(1) by (rule map_eq_imp_length_eq)
  have nth: "mp_offset (planes mb ! i) = plane_offset (ps ! i)
           \<and> mp_length (planes mb ! i) = plane_offset (ps ! i) + plane_length (ps ! i)"
    if "i < length ps" for i
  proof -
    from that len have "map mp_offset (planes mb) ! i = mp_offset (planes mb ! i)"
      and "map mp_length (planes mb) ! i = mp_length (planes mb ! i)" by simp_all
    with assms(1,2) that show ?thesis by simp
  qed
  have b32: "(2::nat) ^ 32 \<le> 2 ^ 64" by simp
  show "\<forall>mp \<in> set (planes mb). mp_offset mp \<le> mp_length mp \<and> mp_length mp < 2 ^ 64"
  proof
    fix mp assume "mp \<in> set (planes mb)"
    then obtain i where i: "i < length (planes mb)" "mp = planes mb ! i"
      by (auto simp: in_set_conv_nth)
    with len have il: "i < length ps" by simp
    then have "ps ! i \<in> set ps" by simp
    with assms(3) have "plane_offset (ps ! i) + plane_length (ps ! i) < 2 ^ 32" by blast
    with b32 have "plane_offset (ps ! i) + plane_length (ps ! i) < 2 ^ 64" by linarith
    with nth [OF il] i(2) show "mp_offset mp \<le> mp_length mp \<and> mp_length mp < 2 ^ 64" by simp
  qed
  show "map (\<lambda>mp. mp_length mp - mp_offset mp) (planes mb) = map plane_length ps"
  proof (rule nth_equalityI)
    show "length (map (\<lambda>mp. mp_length mp - mp_offset mp) (planes mb))
          = length (map plane_length ps)" using len by simp
  next
    fix i assume "i < length (map (\<lambda>mp. mp_length mp - mp_offset mp) (planes mb))"
    with len have il: "i < length ps" by simp
    with len nth [OF il]
    show "map (\<lambda>mp. mp_length mp - mp_offset mp) (planes mb) ! i = map plane_length ps ! i"
      by simp
  qed
qed

lemma ex_payload: "plane_payload ex_mem p = replicate (mp_length p - mp_offset p) 7"
proof -
  have m: "ex_mem = (\<lambda>a. 7)" by (simp add: ex_mem_def fun_eq_iff)
  show ?thesis
    unfolding plane_payload_def m by (simp only: map_replicate_const length_upt) simp
qed

text \<open>
  The view of the example buffer holds 18432 bytes. With a destination of 10
  bytes the copy is not cut down to the destination: the JVM refuses both
  regions, nothing is copied and an \<^verbatim>\<open>ArrayIndexOutOfBoundsException\<close> is
  left pending.
\<close>

theorem copyOut_small_destination_counterexample:
  "fst (FrameBuffer_nativeMapBuffer ex_mmap 3 2 0 0 ex_map_state) = Inr 4
   \<and> FrameBuffer_nativeCopyBuffer ex_mem 4 (replicate 10 0) 0 18432
        (snd (FrameBuffer_nativeMapBuffer ex_mmap 3 2 0 0 ex_map_state))
       = (Inl ArrayIndexOutOfBoundsException, replicate 10 0)"
  by (simp add: ex_map_result)
     (simp add: FrameBuffer_nativeCopyBuffer_def m_find_def to_size_t_def to_jint_def
        size_t_sub_def SetByteArrayRegion_def Let_def)

text \<open>
  Claim C4, as the code has it. Take a view that \<^verbatim>\<open>nativeMapBuffer\<close> built
  from a buffer none of whose planes has an offset plus length reaching
  \<open>2 ^ 32\<close>, still registered under its handle. Its planes are the buffer's
  planes in order, each with the buffer plane's leading offset and, behind
  it, a payload of the plane's declared length. Let \<open>n\<close> be the smaller of
  \<open>maxLength\<close> and the view's total length, with \<open>maxLength\<close> and
  \<open>destOffset\<close> not negative. When the destination has room for \<open>n\<close> bytes
  from \<open>destOffset\<close> on, the copy writes exactly the first \<open>n\<close> payload bytes
  of the view there (the planes in order, each without its leading offset, one
  after the other) and leaves the rest of the destination as it was. Whenever
  the call comes back, with or without a Java exception, the destination has
  kept its length: nothing is written past its end.
\<close>

theorem copyOut_when_destination_fits:
  "(target_buffer s0 a c si bi = Some fb
      \<and> (\<forall>p \<in> set (fb_planes fb). plane_offset p + plane_length p < 2 ^ 32)
      \<and> fst (FrameBuffer_nativeMapBuffer mmap a c si bi s0) = Inr h
      \<and> m_find (g_mappedBuffers (snd (FrameBuffer_nativeMapBuffer mmap a c si bi s0))) h
          = Some mb
      \<and> m_find (g_mappedBuffers s) h = Some mb
      \<and> 0 \<le> maxLength \<and> maxLength < 2 ^ 31 \<and> 0 \<le> destOffset
      \<and> nat destOffset + min (nat maxLength) (totalLength mb) \<le> length dest
      \<and> length dest < 2 ^ 31
    \<longrightarrow> map mp_offset (planes mb) = map plane_offset (fb_planes fb)
        \<and> map (\<lambda>mp. mp_length mp - mp_offset mp) (planes mb)
            = map plane_length (fb_planes fb)
        \<and> totalLength mb = sum_list (map plane_length (fb_planes fb)) mod 2 ^ 64
        \<and> FrameBuffer_nativeCopyBuffer mem h dest destOffset maxLength s
            = (Inr (),
               take (nat destOffset) dest
                 @ take (min (nat maxLength) (totalLength mb))
                     (concat (map (plane_payload mem) (planes mb)))
                 @ drop (nat destOffset + min (nat maxLength) (totalLength mb)) dest))
   \<and> (fst (FrameBuffer_nativeCopyBuffer mem h dest destOffset maxLength s)
          \<noteq> Inl UndefinedBehaviour
        \<longrightarrow> length (snd (FrameBuffer_nativeCopyBuffer mem h dest destOffset maxLength s))
              = length dest)"
proof (intro conjI impI)
  assume hyp: "target_buffer s0 a c si bi = Some fb
      \<and> (\<forall>p \<in> set (fb_planes fb). plane_offset p + plane_length p < 2 ^ 32)
      \<and> fst (FrameBuffer_nativeMapBuffer mmap a c si bi s0) = Inr h
      \<and> m_find (g_mappedBuffers (snd (FrameBuffer_nativeMapBuffer mmap a c si bi s0))) h
          = Some mb
      \<and> m_find (g_mappedBuffers s) h = Some mb
      \<and> 0 \<le> maxLength \<and> maxLength < 2 ^ 31 \<and> 0 \<le> destOffset
      \<and> nat destOffset + min (nat maxLength) (totalLength mb) \<le> length dest
      \<and> length dest < 2 ^ 31"
  let ?n = "min (nat maxLength) (totalLength mb)"
  from hyp have tb: "target_buffer s0 a c si bi = Some fb"
    and nowrap: "\<forall>p \<in> set (fb_planes fb). plane_offset p + plane_length p < 2 ^ 32"
    and ok: "fst (FrameBuffer_nativeMapBuffer mmap a c si bi s0) = Inr h"
    and built: "m_find (g_mappedBuffers (snd (FrameBuffer_nativeMapBuffer mmap a c si bi s0))) h
                  = Some mb"
    and fnd: "m_find (g_mappedBuffers s) h = Some mb"
    and ml: "0 \<le> maxLength" "maxLength < 2 ^ 31"
    and dO: "0 \<le> destOffset"
    and fit: "nat destOffset + ?n \<le> length dest"
    and len: "length dest < 2 ^ 31"
    by blast+
  note v = mapBuffer_view [OF tb nowrap ok built]
  note w = view_wellformed [OF v(1) v(2) nowrap]
  show "map mp_offset (planes mb) = map plane_offset (fb_planes fb)" by (rule v(1))
  show "map (\<lambda>mp. mp_length mp - mp_offset mp) (planes mb) = map plane_length (fb_planes fb)"
    by (rule w(2))
  show "totalLength mb = sum_list (map plane_length (fb_planes fb)) mod 2 ^ 64" by (rule v(3))
  have rem: "min (to_size_t maxLength) (totalLength mb) = ?n"
    using to_size_t_id [OF ml] by simp
  have "totalLength mb \<le> payload_length mb"
    unfolding v(3) v(4) by (rule mod_less_eq_dividend)
  then have le: "?n \<le> sum_list (map (\<lambda>p. mp_length p - mp_offset p) (planes mb))"
    by (simp add: payload_length_def)
  note c = copy_planes_fits [OF w(1) dO fit len le, of mem None]
  show "FrameBuffer_nativeCopyBuffer mem h dest destOffset maxLength s
          = (Inr (), take (nat destOffset) dest
               @ take ?n (concat (map (plane_payload mem) (planes mb)))
               @ drop (nat destOffset + ?n) dest)"
    using fnd rem c by (simp add: FrameBuffer_nativeCopyBuffer_def Let_def)
next
  show "length (snd (FrameBuffer_nativeCopyBuffer mem h dest destOffset maxLength s)) = length dest"
    by (rule copyBuffer_length)
qed

theorem copyOut_when_destination_fits_witness:
  "fst (FrameBuffer_nativeMapBuffer ex_mmap 3 2 0 0 ex_map_state) = Inr 4
   \<and> FrameBuffer_nativeCopyBuffer ex_mem 4 (replicate 32 0) 4 20
        (snd (FrameBuffer_nativeMapBuffer ex_mmap 3 2 0 0 ex_map_state))
       = (Inr (), replicate 4 0 @ replicate 20 7 @ replicate 8 0)"
proof -
  let ?mb = "\<lparr>planes = [\<lparr>mp_data = 65536, mp_length = 12288, mp_offset = 0\<rparr>,
                         \<lparr>mp_data = 131072, mp_length = 18432, mp_offset = 12288\<rparr>],
               totalLength = 18432\<rparr>"
  let ?s = "snd (FrameBuffer_nativeMapBuffer ex_mmap 3 2 0 0 ex_map_state)"
  have b: "\<forall>p \<in> set (fb_planes ex_fb). plane_offset p + plane_length p < 2 ^ 32"
    by (simp add: ex_fb_def)
  have ok: "fst (FrameBuffer_nativeMapBuffer ex_mmap 3 2 0 0 ex_map_state) = Inr 4"
    by (simp add: ex_map_result)
  have reg: "m_find (g_mappedBuffers ?s) 4 = Some ?mb"
    by (simp add: ex_map_result m_find_def)
  have d: "nat 4 + min (nat 20) (totalLength ?mb) \<le> length (replicate 32 (0::byte))"
    by simp
  from copyOut_when_destination_fits
         [of ex_map_state 3 2 0 0 ex_fb ex_mmap 4 ?mb ?s 20 4 "replicate 32 0" ex_mem]
       ex_target b ok reg d
  have "FrameBuffer_nativeCopyBuffer ex_mem 4 (replicate 32 0) 4 20 ?s
          = (Inr (), take (nat 4) (replicate 32 0)
               @ take (min (nat 20) (totalLength ?mb))
                   (concat (map (plane_payload ex_mem) (planes ?mb)))
               @ drop (nat 4 + min (nat 20) (totalLength ?mb)) (replicate 32 0))"
    by simp
  then have "FrameBuffer_nativeCopyBuffer ex_mem 4 (replicate 32 0) 4 20 ?s
          = (Inr (), replicate 4 0 @ replicate 20 7 @ replicate 8 0)"
    by (simp add: ex_payload)
  with ok show ?thesis by simp
qed

text \<open>
  Outside the condition on the planes: for the plane of offset \<open>2 ^ 32 - 8\<close>
  and length 16 the mapping loop computes a size of 8. The view has a leading
  offset beyond its mapped length, and the copy reads outside the mapping.
\<close>

lemma ex_wrap_result:
  "FrameBuffer_nativeMapBuffer ex_mmap 3 2 0 0 ex_wrap_state =
     (Inr 4, ex_wrap_state\<lparr>g_nextHandle := 5,
        g_mappedBuffers := [(4, \<lparr>planes = [\<lparr>mp_data = 65536, mp_length = 8,
                                             mp_offset = 4294967288\<rparr>],
                                totalLength = 16\<rparr>)],
        vm := {#(65536, 8)#}\<rparr>)"
  by (simp add: FrameBuffer_nativeMapBuffer_def ex_wrap_state_def ex_map_state_def
      init_state_def ex_fb_wrap_def ex_mmap_def m_find_def config_at_def to_uint_def
      to_size_t_def buffers_def Let_def allocHandle_def INT64_MAX_def)

lemma copyOut_wrapped_view_faults:
  "fst (FrameBuffer_nativeCopyBuffer mem 4 (replicate 16 0) 0 16
         (snd (FrameBuffer_nativeMapBuffer ex_mmap 3 2 0 0 ex_wrap_state)))
     = Inl UndefinedBehaviour"
  by (simp add: ex_wrap_result)
     (simp add: FrameBuffer_nativeCopyBuffer_def m_find_def to_size_t_def to_jint_def
        size_t_sub_def SetByteArrayRegion_def readable_def Let_def)

end
